theory Spec2Isabelle
  imports Complex_Main "HOL-Library.Word" "HOL-Library.AList"
begin

unbundle bit_operations_syntax

section \<open>JavaScript values\<close>

text \<open>
  The remote payload is whatever \<open>JSON.parse\<close> returns, and the adapter reads it
  with untyped property access. Values are modelled as a datatype. A number is
  \<open>NaN\<close>, an infinity, or a finite double given by the rational it denotes (both
  zeros are \<open>Fin 0\<close>); the arithmetic on numbers is that of the platform, below. A
  string is a sequence of UTF-16 code units; the strings here are those whose code units
  are below 256, one \<open>char\<close> each.
\<close>

datatype jsnum = NaN | PosInf | NegInf | Fin rat

datatype jsval =
    JUndefined
  | JNull
  | JBool bool
  | JNum jsnum
  | JStr string
  | JArr "jsval list"
  | JObj "(string \<times> jsval) list"

text \<open>
  Built-ins of the platform that the repository calls but does not define. They are
  parameters of the model: \<open>JSON.parse\<close> (\<open>None\<close> when it throws a SyntaxError),
  the rendering of a finite number by \<open>String\<close>, the reading of a string by
  \<open>Number\<close>, the operators \<open>+\<close>, \<open>-\<close> and \<open>*\<close> on two numbers (IEEE 754
  double arithmetic, with its rounding), and the calendar day
  \<open>new Date().toISOString().split('T')[0]\<close>.
\<close>

record platform =
  JSON_parse :: "string \<Rightarrow> jsval option"
  NumberToString :: "rat \<Rightarrow> string"
  StringToNumber :: "string \<Rightarrow> jsnum"
  num_add :: "jsnum \<Rightarrow> jsnum \<Rightarrow> jsnum"
  num_sub :: "jsnum \<Rightarrow> jsnum \<Rightarrow> jsnum"
  num_mul :: "jsnum \<Rightarrow> jsnum \<Rightarrow> jsnum"
  today :: string

datatype error =
    NetworkError
  | HttpError nat
  | HtmlError
  | InvalidFormat
  | SyntaxError
  | TypeError

text \<open>Truthiness, as used by \<open>||\<close>, \<open>!\<close> and \<open>if\<close>.\<close>

fun truthy :: "jsval \<Rightarrow> bool" where
  "truthy JUndefined = False"
| "truthy JNull = False"
| "truthy (JBool b) = b"
| "truthy (JNum NaN) = False"
| "truthy (JNum PosInf) = True"
| "truthy (JNum NegInf) = True"
| "truthy (JNum (Fin r)) = (r \<noteq> 0)"
| "truthy (JStr s) = (s \<noteq> [])"
| "truthy (JArr xs) = True"
| "truthy (JObj kvs) = True"

definition js_or :: "jsval \<Rightarrow> jsval \<Rightarrow> jsval" where
  "js_or a b = (if truthy a then a else b)"

text \<open>
  Property read \<open>data.k\<close> on a value that is neither \<open>null\<close> nor \<open>undefined\<close>
  (on those the read throws a TypeError, which each caller below checks first): the
  stored value on an object, \<open>undefined\<close> for a key the value does not have. None of
  the keys read in this repository is a built-in property of a string, number, boolean or
  array.
\<close>

fun field :: "jsval \<Rightarrow> string \<Rightarrow> jsval" where
  "field (JObj kvs) k = (case map_of kvs k of None \<Rightarrow> JUndefined | Some v \<Rightarrow> v)"
| "field v k = JUndefined"

definition isNullish :: "jsval \<Rightarrow> bool" where
  "isNullish v = (v = JNull \<or> v = JUndefined)"

fun join :: "string \<Rightarrow> string list \<Rightarrow> string" where
  "join sep [] = []"
| "join sep [x] = x"
| "join sep (x # y # ys) = x @ sep @ join sep (y # ys)"

text \<open>\<open>String(v)\<close>. An array renders its elements joined by commas, with \<open>null\<close> and
  \<open>undefined\<close> elements empty; a plain object renders as \<open>[object Object]\<close>.\<close>

fun ToString :: "platform \<Rightarrow> jsval \<Rightarrow> string" where
  "ToString p JUndefined = ''undefined''"
| "ToString p JNull = ''null''"
| "ToString p (JBool b) = (if b then ''true'' else ''false'')"
| "ToString p (JNum NaN) = ''NaN''"
| "ToString p (JNum PosInf) = ''Infinity''"
| "ToString p (JNum NegInf) = ''-Infinity''"
| "ToString p (JNum (Fin r)) = NumberToString p r"
| "ToString p (JStr s) = s"
| "ToString p (JArr xs) =
     join '','' (map (\<lambda>x. if x = JNull \<or> x = JUndefined then [] else ToString p x) xs)"
| "ToString p (JObj kvs) = ''[object Object]''"

text \<open>\<open>Number(v)\<close>.\<close>

fun ToNumber :: "platform \<Rightarrow> jsval \<Rightarrow> jsnum" where
  "ToNumber p JUndefined = NaN"
| "ToNumber p JNull = Fin 0"
| "ToNumber p (JBool b) = Fin (if b then 1 else 0)"
| "ToNumber p (JNum n) = n"
| "ToNumber p (JStr s) = StringToNumber p s"
| "ToNumber p (JArr xs) = StringToNumber p (ToString p (JArr xs))"
| "ToNumber p (JObj kvs) = StringToNumber p ''[object Object]''"

section \<open>String primitives\<close>

text \<open>
  \<open>toLowerCase\<close> on code units below 256: the letters \<open>A\<close> to \<open>Z\<close> (65 to 90)
  and the capital letters of the Latin-1 supplement (192 to 222, without the
  multiplication sign 215) move up by 32; every other code unit stays.
\<close>

definition toLowerChar :: "char \<Rightarrow> char" where
  "toLowerChar c =
     (let n = (of_char c :: nat)
      in if (65 \<le> n \<and> n \<le> 90) \<or> (192 \<le> n \<and> n \<le> 222 \<and> n \<noteq> 215)
         then char_of (n + 32) else c)"

definition toLowerCase :: "string \<Rightarrow> string" where
  "toLowerCase s = map toLowerChar s"

text \<open>White space as matched by \<open>\s\<close> and removed by \<open>trim\<close>, among the code
  units below 256: tab, line feed, vertical tab, form feed, carriage return, space and
  the no-break space (160).\<close>

definition isWhiteSpace :: "char \<Rightarrow> bool" where
  "isWhiteSpace c = ((of_char c :: nat) \<in> {9, 10, 11, 12, 13, 32, 160})"

definition trim :: "string \<Rightarrow> string" where
  "trim s = rev (dropWhile isWhiteSpace (rev (dropWhile isWhiteSpace s)))"

text \<open>\<open>s.replace(/\s+/g, ' ')\<close>: every maximal run of white space becomes one space.\<close>

function collapseSpaces :: "string \<Rightarrow> string" where
  "collapseSpaces [] = []"
| "collapseSpaces (c # cs) =
     (if isWhiteSpace c then CHR '' '' # collapseSpaces (dropWhile isWhiteSpace cs)
      else c # collapseSpaces cs)"
  by pat_completeness auto
termination
  by (relation "measure length") (auto simp: less_Suc_eq_le length_dropWhile_le)

fun startsWith :: "string \<Rightarrow> string \<Rightarrow> bool" where
  "startsWith s [] = True"
| "startsWith [] (c # cs) = False"
| "startsWith (x # xs) (c # cs) = (x = c \<and> startsWith xs cs)"

text \<open>\<open>s.split('T')[0]\<close>: the part before the first \<open>T\<close>.\<close>

definition beforeT :: "string \<Rightarrow> string" where
  "beforeT s = takeWhile (\<lambda>c. c \<noteq> CHR ''T'') s"

section \<open>The canonical quotation\<close>

text \<open>
  \<open>Quotation\<close> of \<open>types.ts\<close>, typed as the values are at run time: the four fields
  that \<open>normalizeQuote\<close> passes through \<open>String\<close> are strings, the two it passes through
  \<open>Number\<close> are numbers, the flag is a boolean, and the others hold whatever the record
  carried. The fields \<open>id\<close> and \<open>notes\<close> are named \<open>id'\<close> and \<open>notes'\<close>.
\<close>

record Quotation =
  id' :: string
  quoteNumber :: string
  date :: string
  customerName :: string
  customerPhone :: jsval
  customerEmail :: jsval
  customerAddress :: jsval
  vehicleMake :: jsval
  vehicleModel :: jsval
  vehicleNo :: jsval
  lineItems :: jsval
  discount :: jsnum
  taxRate :: jsnum
  notes' :: jsval
  status :: jsval
  isOptionQuote :: bool

section \<open>Remote store adapter (googleSheets.ts)\<close>

text \<open>Console output, kept so that what is logged and what is thrown can be told apart.\<close>

datatype log_entry = LogWarn string | LogError string

definition isArray :: "jsval \<Rightarrow> bool" where
  "isArray v = (case v of JArr xs \<Rightarrow> True | _ \<Rightarrow> False)"

definition elems :: "jsval \<Rightarrow> jsval list" where
  "elems v = (case v of JArr xs \<Rightarrow> xs | _ \<Rightarrow> [])"

definition parseLineItems :: "platform \<Rightarrow> jsval \<Rightarrow> jsval" where
  "parseLineItems p items =
     (case items of
        JArr xs \<Rightarrow> JArr xs
      | JStr s \<Rightarrow> (case JSON_parse p s of Some v \<Rightarrow> v | None \<Rightarrow> JArr [])
      | _ \<Rightarrow> JArr [])"

text \<open>
  The loop of \<open>generateStableId\<close>. \<open>hash\<close> is a 32-bit integer after every round
  (\<open>hash & hash\<close>); the intermediate double arithmetic is exact, so each round is
  \<open>(hash << 5) - hash + char\<close> modulo \<open>2^32\<close>.
\<close>

fun hashLoop :: "string \<Rightarrow> 32 word \<Rightarrow> 32 word" where
  "hashLoop [] hash = hash"
| "hashLoop (c # cs) hash = hashLoop cs ((push_bit 5 hash - hash) + of_nat (of_char c))"

definition digit36 :: "nat \<Rightarrow> char" where
  "digit36 d = ''0123456789abcdefghijklmnopqrstuvwxyz'' ! d"

text \<open>\<open>n.toString(36)\<close> for a non-negative integer.\<close>

function toString36 :: "nat \<Rightarrow> string" where
  "toString36 n = (if n < 36 then [digit36 n] else toString36 (n div 36) @ [digit36 (n mod 36)])"
  by pat_completeness auto
termination
  by (relation "measure id") auto

definition generateStableId :: "string \<Rightarrow> string" where
  "generateStableId str =
     (if length str = 0 then ''unknown''
      else toString36 (nat \<bar>sint (hashLoop str 0)\<bar>))"

definition normalizeQuote :: "platform \<Rightarrow> jsval \<Rightarrow> error + Quotation" where
  "normalizeQuote p data =
     (if isNullish data then Inl TypeError
      else
        let quoteNum = trim (ToString p
              (js_or (js_or (field data ''quoteNumber'') (field data ''quote_number'')) (JStr [])));
            customer = trim (ToString p
              (js_or (js_or (field data ''customerName'') (field data ''customer_name'')) (JStr [])));
            dateStr0 = trim (ToString p
              (js_or (js_or (field data ''date'') (field data ''Date'')) (JStr [])));
            dateStr1 = (if CHR ''T'' \<in> set dateStr0 then beforeT dateStr0 else dateStr0);
            dateStr = (if dateStr1 = [] then today p else dateStr1);
            id0 = trim (ToString p
              (js_or (js_or (field data ''id'') (field data ''Id'')) (JStr [])));
            isMissingId = (id0 = [] \<or> id0 = ''undefined'' \<or> id0 = ''null'');
            signature = toLowerCase customer @ ''|'' @ dateStr @ ''|'' @ toLowerCase quoteNum;
            ident = (if isMissingId then ''gen_'' @ generateStableId signature else id0)
        in Inr \<lparr>
          id' = ident,
          quoteNumber = quoteNum,
          date = dateStr,
          customerName = customer,
          customerPhone =
            js_or (js_or (field data ''customerPhone'') (field data ''customer_phone'')) (JStr []),
          customerEmail =
            js_or (js_or (field data ''customerEmail'') (field data ''customer_email'')) (JStr []),
          customerAddress =
            js_or (js_or (field data ''customerAddress'') (field data ''customer_address''))
              (JStr []),
          vehicleMake =
            js_or (js_or (field data ''vehicleMake'') (field data ''vehicle_make'')) (JStr []),
          vehicleModel =
            js_or (js_or (field data ''vehicleModel'') (field data ''vehicle_model'')) (JStr []),
          vehicleNo =
            js_or (js_or (field data ''vehicleNo'') (field data ''vehicle_no'')) (JStr []),
          lineItems =
            parseLineItems p (js_or (field data ''lineItems'') (field data ''line_items'')),
          discount = ToNumber p (js_or (field data ''discount'') (JNum (Fin 0))),
          taxRate = ToNumber p
            (if field data ''taxRate'' \<noteq> JUndefined then field data ''taxRate''
             else if field data ''tax_rate'' \<noteq> JUndefined then field data ''tax_rate''
             else JNum (Fin 18)),
          notes' = js_or (field data ''notes'') (JStr []),
          status = js_or (field data ''status'') (JStr ''Draft''),
          isOptionQuote =
            truthy (js_or (field data ''isOptionQuote'') (field data ''is_option_quote''))
        \<rparr>)"

text \<open>\<open>rawData.map(normalizeQuote)\<close>: the first element that throws ends the map.\<close>

fun mapE :: "('a \<Rightarrow> error + 'b) \<Rightarrow> 'a list \<Rightarrow> error + 'b list" where
  "mapE f [] = Inr []"
| "mapE f (x # xs) =
     (case f x of
        Inl e \<Rightarrow> Inl e
      | Inr y \<Rightarrow> (case mapE f xs of Inl e \<Rightarrow> Inl e | Inr ys \<Rightarrow> Inr (y # ys)))"

text \<open>
  What \<open>await fetch(...)\<close> followed by \<open>await response.text()\<close> gives: a rejection
  (transport failure), or a response with its \<open>ok\<close> flag, status code and body text.
\<close>

datatype http_outcome = NetworkFailure | Response bool nat string

text \<open>The envelope selection of \<open>fetchQuotes\<close>; the value is not \<open>null\<close>.\<close>

definition rawDataOf :: "jsval \<Rightarrow> jsval list" where
  "rawDataOf result =
     (if field result ''status'' = JStr ''success'' \<and> isArray (field result ''data'')
        then elems (field result ''data'')
      else if isArray result then elems result
      else if truthy (field result ''data'') \<and> isArray (field result ''data'')
        then elems (field result ''data'')
      else [])"

definition fetchQuotes :: "platform \<Rightarrow> http_outcome \<Rightarrow> error + Quotation list" where
  "fetchQuotes p outcome =
     (case outcome of
        NetworkFailure \<Rightarrow> Inl NetworkError
      | Response ok code text \<Rightarrow>
          if \<not> ok then Inl (HttpError code)
          else if startsWith (trim text) ''<'' then Inl HtmlError
          else (case JSON_parse p text of
                  None \<Rightarrow> Inl InvalidFormat
                | Some result \<Rightarrow>
                    if isNullish result then Inl TypeError
                    else (case mapE (normalizeQuote p) (rawDataOf result) of
                            Inl e \<Rightarrow> Inl e
                          | Inr qs \<Rightarrow> Inr (filter (\<lambda>q. status q \<noteq> JStr ''Deleted'') qs))))"

text \<open>
  \<open>saveQuote\<close>. The inner \<open>try\<close> covers \<open>JSON.parse\<close> and the read of
  \<open>result.status\<close>; its \<open>catch\<close> throws only for a body that starts with \<open><\<close>.
  The outer \<open>catch\<close> logs and rethrows. The result pairs the console output with the
  outcome of the promise.
\<close>

definition saveQuote ::
  "platform \<Rightarrow> Quotation \<Rightarrow> http_outcome \<Rightarrow> log_entry list \<times> (error + unit)" where
  "saveQuote p quote outcome =
     (case outcome of
        NetworkFailure \<Rightarrow> ([LogError ''Error saving quote to Sheets:''], Inl NetworkError)
      | Response ok code text \<Rightarrow>
          (case (case JSON_parse p text of
                   None \<Rightarrow> None
                 | Some result \<Rightarrow> if isNullish result then None else Some result) of
             Some result \<Rightarrow>
               if field result ''status'' \<noteq> JStr ''success''
               then ([LogWarn ''Save response status:''], Inr ())
               else ([], Inr ())
           | None \<Rightarrow>
               if startsWith (trim text) ''<''
               then ([LogError ''Error saving quote to Sheets:''], Inl HtmlError)
               else ([], Inr ())))"

text \<open>The object a quotation is when it is serialised, key by key.\<close>

definition quoteObject :: "Quotation \<Rightarrow> (string \<times> jsval) list" where
  "quoteObject q =
     [(''id'', JStr (id' q)), (''quoteNumber'', JStr (quoteNumber q)),
      (''date'', JStr (date q)), (''customerName'', JStr (customerName q)),
      (''customerPhone'', customerPhone q), (''customerEmail'', customerEmail q),
      (''customerAddress'', customerAddress q), (''vehicleMake'', vehicleMake q),
      (''vehicleModel'', vehicleModel q), (''vehicleNo'', vehicleNo q),
      (''lineItems'', lineItems q), (''discount'', JNum (discount q)),
      (''taxRate'', JNum (taxRate q)), (''notes'', notes' q), (''status'', status q),
      (''isOptionQuote'', JBool (isOptionQuote q))]"

text \<open>A POST request: the \<open>action\<close> of the query string and the body before
  \<open>JSON.stringify\<close>.\<close>

datatype request = Post string jsval

definition softDeleteRequest :: "Quotation \<Rightarrow> request" where
  "softDeleteRequest quote =
     Post ''save'' (JObj [(''action'', JStr ''save''),
       (''quote'', JObj
          (AList.update ''quote_number'' (JStr (quoteNumber quote))
            (AList.update ''ID'' (JStr (id' quote))
              (AList.update ''Id'' (JStr (id' quote))
                (AList.update ''status'' (JStr ''Deleted'') (quoteObject quote))))))])"

definition hardDeleteRequest :: "Quotation \<Rightarrow> request" where
  "hardDeleteRequest quote =
     Post ''delete'' (JObj [(''action'', JStr ''delete''),
       (''id'', JStr (id' quote)), (''Id'', JStr (id' quote)), (''ID'', JStr (id' quote)),
       (''quote_number'', JStr (quoteNumber quote)),
       (''quoteNumber'', JStr (quoteNumber quote))])"

text \<open>
  What a run of an asynchronous function has done so far: the requests it has awaited,
  in order, those it has fired without waiting, and what it has written to the console.
  A step of such a function continues a run and ends in a value or in a thrown error.
\<close>

record io_trace =
  awaited :: "request list"
  detached :: "request list"
  logged :: "log_entry list"

type_synonym 'a promise = "io_trace \<Rightarrow> io_trace \<times> (error + 'a)"

definition andThen :: "'a promise \<Rightarrow> ('a \<Rightarrow> 'b promise) \<Rightarrow> 'b promise" where
  "andThen m f t = (case m t of (t1, Inl e) \<Rightarrow> (t1, Inl e) | (t1, Inr x) \<Rightarrow> f x t1)"

text \<open>\<open>try { m } catch (e) { h e }\<close>.\<close>

definition tryCatch :: "'a promise \<Rightarrow> (error \<Rightarrow> 'a promise) \<Rightarrow> 'a promise" where
  "tryCatch m h t = (case m t of (t1, Inl e) \<Rightarrow> h e t1 | (t1, Inr x) \<Rightarrow> (t1, Inr x))"

text \<open>\<open>await fetch(...)\<close>: it throws when the transport fails and at no HTTP status.\<close>

definition awaitPost :: "request \<Rightarrow> http_outcome \<Rightarrow> unit promise" where
  "awaitPost req outcome t =
     (t\<lparr>awaited := awaited t @ [req]\<rparr>,
      case outcome of NetworkFailure \<Rightarrow> Inl NetworkError | Response ok code text \<Rightarrow> Inr ())"

text \<open>\<open>fetch(...).catch(() => {})\<close>, not awaited: whatever becomes of the request, the
  function goes on.\<close>

definition firePost :: "request \<Rightarrow> unit promise" where
  "firePost req t = (t\<lparr>detached := detached t @ [req]\<rparr>, Inr ())"

definition consoleError :: "string \<Rightarrow> unit promise" where
  "consoleError msg t = (t\<lparr>logged := logged t @ [LogError msg]\<rparr>, Inr ())"

text \<open>\<open>deleteQuote\<close>, given the outcome that the soft-delete POST meets and the one
  that the hard-delete POST meets.\<close>

definition deleteQuote ::
  "Quotation \<Rightarrow> http_outcome \<Rightarrow> http_outcome \<Rightarrow> io_trace \<times> (error + unit)" where
  "deleteQuote quote soft hard =
     tryCatch
       (andThen (awaitPost (softDeleteRequest quote) soft)
                (\<lambda>u. firePost (hardDeleteRequest quote)))
       (\<lambda>e. andThen (consoleError ''Backend delete failed'')
                (\<lambda>u. tryCatch (awaitPost (hardDeleteRequest quote) hard)
                              (\<lambda>e2. consoleError ''Hard delete also failed'')))
       \<lparr> awaited = [], detached = [], logged = [] \<rparr>"

section \<open>Fingerprint and identity (App)\<close>

text \<open>\<open>normalize\<close>: empty for \<open>null\<close> and \<open>undefined\<close>, otherwise the string form
  lower-cased, trimmed, with white-space runs collapsed.\<close>

definition normalize :: "platform \<Rightarrow> jsval \<Rightarrow> string" where
  "normalize p val =
     (if val = JNull \<or> val = JUndefined then []
      else collapseSpaces (trim (toLowerCase (ToString p val))))"

definition getQuoteFingerprint :: "platform \<Rightarrow> Quotation \<Rightarrow> string" where
  "getQuoteFingerprint p q =
     normalize p (JStr (date q @ ''_'' @ customerName q @ ''_'' @ quoteNumber q))"

section \<open>Tombstone ledger and sync orchestration (App)\<close>

text \<open>
  A JavaScript \<open>Set\<close>: its elements in insertion order. Two elements are the same
  when they are the same primitive value; the arrays and objects that \<open>JSON.parse\<close>
  makes are each an object of its own.
\<close>

definition isPrimitive :: "jsval \<Rightarrow> bool" where
  "isPrimitive v = (case v of JArr xs \<Rightarrow> False | JObj kvs \<Rightarrow> False | _ \<Rightarrow> True)"

definition setHas :: "jsval list \<Rightarrow> jsval \<Rightarrow> bool" where
  "setHas s x = (isPrimitive x \<and> x \<in> set s)"

definition setAdd :: "jsval list \<Rightarrow> jsval \<Rightarrow> jsval list" where
  "setAdd s x = (if setHas s x then s else s @ [x])"

text \<open>\<open>new Set(v)\<close>: the elements of an array, the characters of a string, nothing for
  \<open>null\<close>; any other value is not iterable.\<close>

definition newSet :: "jsval \<Rightarrow> error + jsval list" where
  "newSet v =
     (case v of
        JArr xs \<Rightarrow> Inr (foldl setAdd [] xs)
      | JStr s \<Rightarrow> Inr (foldl setAdd [] (map (\<lambda>c. JStr [c]) s))
      | JNull \<Rightarrow> Inr []
      | JUndefined \<Rightarrow> Inr []
      | _ \<Rightarrow> Inl TypeError)"

text \<open>
  A key of \<open>localStorage\<close> that holds JSON text: absent (or empty), text that
  \<open>JSON.parse\<close> rejects, or text that it parses to a value. A write stores the JSON
  text of an array, which parses to that array. The store is assumed to accept every
  write.
\<close>

datatype stored = Absent | Unparsable | Parsed jsval

text \<open>\<open>JSON.parse(localStorage.getItem(key) || '[]')\<close>.\<close>

definition parseItem :: "stored \<Rightarrow> error + jsval" where
  "parseItem item =
     (case item of
        Absent \<Rightarrow> Inr (JArr [])
      | Unparsable \<Rightarrow> Inl SyntaxError
      | Parsed v \<Rightarrow> Inr v)"

text \<open>The keys that the reconciliation code reads and writes. The cache of quotations is
  held as the list that its text denotes.\<close>

record storage =
  bl_ids :: stored
  bl_numbers :: stored
  bl_fingerprints :: stored
  blacklistedIds :: stored
  tyreQuotes :: "Quotation list option"

definition bindE :: "error + 'a \<Rightarrow> ('a \<Rightarrow> error + 'b) \<Rightarrow> error + 'b" where
  "bindE m f = (case m of Inl e \<Rightarrow> Inl e | Inr x \<Rightarrow> f x)"

text \<open>The \<open>try\<close> block of \<open>getLocallyBlacklistedItems\<close>; \<open>forEach\<close> exists on an
  array only.\<close>

definition readBlacklist ::
  "platform \<Rightarrow> storage \<Rightarrow> error + (jsval list \<times> jsval list \<times> jsval list)" where
  "readBlacklist p st =
     bindE (bindE (parseItem (bl_ids st)) newSet) (\<lambda>ids.
     bindE (bindE (parseItem (bl_numbers st)) newSet) (\<lambda>numbers.
     bindE (bindE (parseItem (bl_fingerprints st)) newSet) (\<lambda>fingerprints.
     bindE (parseItem (blacklistedIds st)) (\<lambda>legacyIds.
       case legacyIds of
         JArr xs \<Rightarrow>
           Inr (foldl (\<lambda>acc i. setAdd acc (JStr (normalize p i))) ids xs,
                numbers, fingerprints)
       | _ \<Rightarrow> Inl TypeError))))"

text \<open>\<open>getLocallyBlacklistedItems\<close>: on any error of the read, three empty sets.\<close>

definition getLocallyBlacklistedItems ::
  "platform \<Rightarrow> storage \<Rightarrow> jsval list \<times> jsval list \<times> jsval list" where
  "getLocallyBlacklistedItems p st =
     (case readBlacklist p st of
        Inr sets \<Rightarrow> sets
      | Inl e \<Rightarrow> ([], [], []))"

datatype View = ListView | FormView

text \<open>Effects in the order in which a handler performs them.\<close>

datatype effect =
    PauseSet bool
  | LedgerWrite
  | QuotesSet
  | CacheWrite
  | FetchCall
  | SaveCall Quotation
  | DeleteCall Quotation
  | Alert

text \<open>
  The state of \<open>App\<close> that the handlers below touch. \<open>pauseSync\<close> is
  \<open>pauseSyncRef.current\<close>; \<open>serviceOn\<close> is
  \<open>sheetsService && companyDetails.useGoogleSheets\<close>. \<open>lastSyncTime\<close> is left out.

  A handler is a closure of some render: it reads the state variables (\<open>quotes\<close>,
  \<open>selectedQuote\<close>, \<open>isSyncing\<close>, \<open>serviceOn\<close>) as they were at that render,
  and the ref and the storage as they are when it runs. A handler below therefore takes
  two states: \<open>r\<close>, the state at the render it belongs to, of which it reads state
  variables only, and the state it runs in and changes.
\<close>

record app_state =
  quotes :: "Quotation list"
  selectedQuote :: "Quotation option"
  view :: View
  isSyncing :: bool
  errorMsg :: "error option"
  pauseSync :: bool
  store :: storage
  serviceOn :: bool
  trace :: "effect list"

definition emit :: "effect \<Rightarrow> app_state \<Rightarrow> app_state" where
  "emit e st = st\<lparr>trace := trace st @ [e]\<rparr>"

definition setPause :: "bool \<Rightarrow> app_state \<Rightarrow> app_state" where
  "setPause b st = emit (PauseSet b) (st\<lparr>pauseSync := b\<rparr>)"

definition setQuotes :: "Quotation list \<Rightarrow> app_state \<Rightarrow> app_state" where
  "setQuotes qs st = emit QuotesSet (st\<lparr>quotes := qs\<rparr>)"

definition writeCache :: "Quotation list \<Rightarrow> app_state \<Rightarrow> app_state" where
  "writeCache qs st = emit CacheWrite (st\<lparr>store := (store st)\<lparr>tyreQuotes := Some qs\<rparr>\<rparr>)"

text \<open>The three \<open>setItem\<close> calls that store the sets as arrays.\<close>

definition writeLedger ::
  "jsval list \<Rightarrow> jsval list \<Rightarrow> jsval list \<Rightarrow> app_state \<Rightarrow> app_state" where
  "writeLedger ids numbers fingerprints st =
     emit LedgerWrite
       (st\<lparr>store := (store st)\<lparr>bl_ids := Parsed (JArr ids),
                                 bl_numbers := Parsed (JArr numbers),
                                 bl_fingerprints := Parsed (JArr fingerprints)\<rparr>\<rparr>)"

text \<open>The filter of \<open>fetchRemoteQuotes\<close>, check by check.\<close>

definition keepQuote ::
  "platform \<Rightarrow> jsval list \<Rightarrow> jsval list \<Rightarrow> jsval list \<Rightarrow> Quotation \<Rightarrow> bool" where
  "keepQuote p ids numbers fingerprints q =
     (if status q = JStr ''Deleted'' then False
      else if setHas ids (JStr (normalize p (JStr (id' q)))) then False
      else if setHas numbers (JStr (normalize p (JStr (quoteNumber q)))) then False
      else if setHas fingerprints (JStr (getQuoteFingerprint p q)) then False
      else True)"

text \<open>
  \<open>fetchRemoteQuotes\<close> runs in two turns of the event loop: up to the
  \<open>await service.fetchQuotes()\<close>, and from its settlement on. The first turn gives
  \<open>None\<close> when the initial guard returns. It reads no state variable.
\<close>

definition fetchRemoteQuotes_begin :: "bool \<Rightarrow> app_state \<Rightarrow> app_state option" where
  "fetchRemoteQuotes_begin isBackground st =
     (if pauseSync st then None
      else Some (emit FetchCall
        (st\<lparr>isSyncing := (if \<not> isBackground then True else isSyncing st),
            errorMsg := None\<rparr>)))"

definition fetchRemoteQuotes_settled ::
  "platform \<Rightarrow> bool \<Rightarrow> error + Quotation list \<Rightarrow> app_state \<Rightarrow> app_state" where
  "fetchRemoteQuotes_settled p isBackground fetched st =
     (let st1 =
        (case fetched of
           Inr cloudQuotes \<Rightarrow>
             if pauseSync st then st
             else
               (case getLocallyBlacklistedItems p (store st) of
                  (ids, numbers, fingerprints) \<Rightarrow>
                    let validQuotes = filter (keepQuote p ids numbers fingerprints) cloudQuotes
                    in writeCache validQuotes (setQuotes validQuotes st))
         | Inl err \<Rightarrow>
             if \<not> isBackground then st\<lparr>errorMsg := Some err\<rparr> else st)
      in if \<not> isBackground then st1\<lparr>isSyncing := False\<rparr> else st1)"

text \<open>The whole of \<open>fetchRemoteQuotes\<close> when nothing else runs in between.\<close>

definition fetchRemoteQuotes ::
  "platform \<Rightarrow> bool \<Rightarrow> http_outcome \<Rightarrow> app_state \<Rightarrow> app_state" where
  "fetchRemoteQuotes p isBackground outcome st =
     (case fetchRemoteQuotes_begin isBackground st of
        None \<Rightarrow> st
      | Some st1 \<Rightarrow> fetchRemoteQuotes_settled p isBackground (fetchQuotes p outcome) st1)"




fun findIndex :: "('a \<Rightarrow> bool) \<Rightarrow> 'a list \<Rightarrow> nat option" where
  "findIndex P [] = None"
| "findIndex P (x # xs) =
     (if P x then Some 0 else map_option Suc (findIndex P xs))"

text \<open>\<open>handleSaveQuote\<close>, up to the \<open>await sheetsService.saveQuote(quote)\<close>.\<close>

definition handleSaveQuote ::
  "platform \<Rightarrow> app_state \<Rightarrow> Quotation \<Rightarrow> app_state \<Rightarrow> app_state" where
  "handleSaveQuote p r quote st =
     (let updatedQuotes =
            (case findIndex (\<lambda>q. id' q = id' quote) (quotes r) of
               Some existingIndex \<Rightarrow> (quotes r)[existingIndex := quote]
             | None \<Rightarrow> quotes r @ [quote]);
          st1 = (setQuotes updatedQuotes st)\<lparr>view := ListView, selectedQuote := None\<rparr>;
          st2 =
            (case getLocallyBlacklistedItems p (store st1) of
               (ids, numbers, fingerprints) \<Rightarrow>
                 let qId = normalize p (JStr (id' quote));
                     qNum = normalize p (JStr (quoteNumber quote));
                     qPrint = getQuoteFingerprint p quote
                 in if setHas ids (JStr qId) \<or> setHas numbers (JStr qNum) \<or>
                       setHas fingerprints (JStr qPrint)
                    then writeLedger (filter (\<lambda>i. i \<noteq> JStr qId) ids)
                           (filter (\<lambda>n. n \<noteq> JStr qNum) numbers)
                           (filter (\<lambda>f. f \<noteq> JStr qPrint) fingerprints) st1
                    else st1);
          st3 = writeCache updatedQuotes st2
      in if serviceOn r
         then emit (SaveCall quote) (setPause True (st3\<lparr>isSyncing := True\<rparr>))
         else st3)"

text \<open>The continuation of \<open>handleSaveQuote\<close> once \<open>saveQuote\<close> has settled, and
  the timer it sets on success (which then starts a background fetch).\<close>

definition handleSaveQuote_settled :: "error + unit \<Rightarrow> app_state \<Rightarrow> app_state" where
  "handleSaveQuote_settled saved st =
     (case saved of
        Inr u \<Rightarrow> st\<lparr>isSyncing := False\<rparr>
      | Inl err \<Rightarrow> (setPause False (emit Alert st))\<lparr>isSyncing := False\<rparr>)"

definition handleSaveQuote_timer :: "app_state \<Rightarrow> app_state" where
  "handleSaveQuote_timer st =
     (let st1 = setPause False st
      in case fetchRemoteQuotes_begin True st1 of None \<Rightarrow> st1 | Some st2 \<Rightarrow> st2)"

text \<open>
  \<open>handleDeleteQuote\<close>: the handler itself (it awaits nothing), and the timer that the
  settled backend request sets. The quotation is looked up in, and the new list is made
  from, the \<open>quotes\<close> of the render; only the fallback for an identifier that is not
  found updates the list as it is.
\<close>

definition handleDeleteQuote ::
  "platform \<Rightarrow> app_state \<Rightarrow> string \<Rightarrow> app_state \<Rightarrow> app_state" where
  "handleDeleteQuote p r i st =
     (case find (\<lambda>q. id' q = i) (quotes r) of
        None \<Rightarrow> setQuotes (filter (\<lambda>q. id' q \<noteq> i) (quotes st)) st
      | Some quoteToDelete \<Rightarrow>
          let st1 = setPause True st;
              st2 =
                (case getLocallyBlacklistedItems p (store st1) of
                   (ids, numbers, fingerprints) \<Rightarrow>
                     let ids1 = (if id' quoteToDelete \<noteq> []
                                 then setAdd ids (JStr (normalize p (JStr (id' quoteToDelete))))
                                 else ids);
                         numbers1 = (if quoteNumber quoteToDelete \<noteq> []
                                     then setAdd numbers
                                            (JStr (normalize p (JStr (quoteNumber quoteToDelete))))
                                     else numbers);
                         fingerprints1 =
                           setAdd fingerprints (JStr (getQuoteFingerprint p quoteToDelete))
                     in writeLedger ids1 numbers1 fingerprints1 st1);
              updatedQuotes = filter (\<lambda>q. id' q \<noteq> i) (quotes r);
              st3 = setQuotes updatedQuotes st2;
              st4 = writeCache updatedQuotes st3;
              st5 = (if map_option id' (selectedQuote r) = Some i
                     then st4\<lparr>selectedQuote := None, view := ListView\<rparr>
                     else st4)
          in if serviceOn r then emit (DeleteCall quoteToDelete) st5
             else setPause False st5)"

text \<open>The \<open>then\<close> and \<open>catch\<close> callbacks on the promise of \<open>deleteQuote\<close> write to
  the console only.\<close>

definition handleDeleteQuote_settled :: "error + unit \<Rightarrow> app_state \<Rightarrow> app_state" where
  "handleDeleteQuote_settled deleted st = (case deleted of Inr u \<Rightarrow> st | Inl err \<Rightarrow> st)"

definition handleDeleteQuote_timer :: "app_state \<Rightarrow> app_state" where
  "handleDeleteQuote_timer st = setPause False st"





section \<open>The total on a quote card (SavedQuotesList)\<close>

text \<open>
  \<open>Math.round\<close> gives the integer nearest to its argument, a tie upwards. On the value
  of a double that integer is a double again, so nothing is rounded a second time.
\<close>

fun Math_round :: "jsnum \<Rightarrow> jsnum" where
  "Math_round (Fin a) = Fin (of_int \<lfloor>a + 1 / 2\<rfloor>)"
| "Math_round NaN = NaN"
| "Math_round PosInf = PosInf"
| "Math_round NegInf = NegInf"

text \<open>\<open>items.reduce((acc, item) => acc + item.quantity * item.unitAmount, acc0)\<close>; the
  read of a property of a \<open>null\<close> item throws. The product is a number whatever the two
  fields hold, and so is the accumulator.\<close>

fun reduceItems :: "platform \<Rightarrow> jsval list \<Rightarrow> jsnum \<Rightarrow> error + jsnum" where
  "reduceItems p [] acc = Inr acc"
| "reduceItems p (item # items) acc =
     (if isNullish item then Inl TypeError
      else reduceItems p items
             (num_add p acc (num_mul p (ToNumber p (field item ''quantity''))
                                       (ToNumber p (field item ''unitAmount'')))))"

datatype total_display = GrandTotal jsnum | MultipleOptions

text \<open>What the bottom line of a card shows. The total is worked out before the flag is
  looked at; a value that has no \<open>reduce\<close> method in place of the line items throws.\<close>

definition QuoteCard :: "platform \<Rightarrow> Quotation \<Rightarrow> error + total_display" where
  "QuoteCard p quote =
     (case lineItems quote of
        JArr items \<Rightarrow>
          (case reduceItems p items (Fin 0) of
             Inl e \<Rightarrow> Inl e
           | Inr grossTotal \<Rightarrow>
               let totalAfterDiscount = num_sub p grossTotal (discount quote);
                   grandTotal = Math_round totalAfterDiscount
               in Inr (if isOptionQuote quote then MultipleOptions
                       else GrandTotal grandTotal))
      | _ \<Rightarrow> Inl TypeError)"

section \<open>Auxiliary notions for the proofs\<close>

text \<open>A string with no white space at either end.\<close>

definition noEdgeSpace :: "string \<Rightarrow> bool" where
  "noEdgeSpace s = (s = [] \<or> (\<not> isWhiteSpace (hd s) \<and> \<not> isWhiteSpace (last s)))"

text \<open>
  A platform for the concrete runs below. Its \<open>JSON_parse\<close> agrees with
  \<open>JSON.parse\<close> on the texts that those runs use. Its arithmetic is exact on halves of
  integers of magnitude below \<open>2^20\<close>: there the sum, the difference and the product are
  doubles, and double arithmetic returns them unrounded; the runs use no other operands.
  The runs convert no number to a string and no string to a number.
\<close>

definition smallHalf :: "rat \<Rightarrow> bool" where
  "smallHalf x = (of_int \<lfloor>2 * x\<rfloor> = 2 * x \<and> \<bar>x\<bar> < 2 ^ 20)"

definition sampleArith :: "(rat \<Rightarrow> rat \<Rightarrow> rat) \<Rightarrow> jsnum \<Rightarrow> jsnum \<Rightarrow> jsnum" where
  "sampleArith f a b =
     (case (a, b) of
        (Fin x, Fin y) \<Rightarrow> if smallHalf x \<and> smallHalf y then Fin (f x y) else NaN
      | _ \<Rightarrow> NaN)"

definition samplePlatform :: platform where
  "samplePlatform =
     \<lparr> JSON_parse = (\<lambda>s.
         if s = ''null'' then Some JNull
         else if s = ''[]'' then Some (JArr [])
         else if s = ''{\"status\":\"error\"}'' then Some (JObj [(''status'', JStr ''error'')])
         else if s = ''[{\"id\":\"a1\",\"quoteNumber\":\"Q-1\",\"date\":\"2024-01-05\",'' @
                     ''\"customerName\":\"Ravi\"}]''
           then Some (JArr [JObj [(''id'', JStr ''a1''), (''quoteNumber'', JStr ''Q-1''),
                                  (''date'', JStr ''2024-01-05''),
                                  (''customerName'', JStr ''Ravi'')]])
         else None),
       NumberToString = (\<lambda>r. if r = 7 then ''7'' else ''0''),
       StringToNumber = (\<lambda>s. NaN),
       num_add = sampleArith (\<lambda>x y. x + y),
       num_sub = sampleArith (\<lambda>x y. x - y),
       num_mul = sampleArith (\<lambda>x y. x * y),
       today = ''2024-01-05'' \<rparr>"

text \<open>A quotation with the given identity fields and nothing else of note.\<close>

definition sampleQuote :: "string \<Rightarrow> string \<Rightarrow> string \<Rightarrow> string \<Rightarrow> Quotation" where
  "sampleQuote i n d c =
     \<lparr> id' = i, quoteNumber = n, date = d, customerName = c,
       customerPhone = JStr [], customerEmail = JStr [], customerAddress = JStr [],
       vehicleMake = JStr [], vehicleModel = JStr [], vehicleNo = JStr [],
       lineItems = JArr [], discount = Fin 0, taxRate = Fin 18, notes' = JStr [],
       status = JStr ''Draft'', isOptionQuote = False \<rparr>"

text \<open>A store with entries in the current and in the legacy ledger, and a state with
  two quotations, for the concrete runs.\<close>

definition sampleStore :: storage where
  "sampleStore =
     \<lparr> bl_ids = Parsed (JArr [JStr ''old-1'']), bl_numbers = Parsed (JArr [JStr ''q-9'']),
       bl_fingerprints = Absent, blacklistedIds = Parsed (JArr [JStr ''Legacy-7'']),
       tyreQuotes = None \<rparr>"

definition sampleState :: app_state where
  "sampleState =
     \<lparr> quotes = [sampleQuote ''a1'' ''Q-1'' ''2024-01-05'' ''Ravi'',
                 sampleQuote ''b2'' ''Q-2'' ''2024-01-06'' ''Asha''],
       selectedQuote = None, view = ListView, isSyncing = False, errorMsg = None,
       pauseSync = False, store = sampleStore, serviceOn = True, trace = [] \<rparr>"


text \<open>
  Two intermediate values of \<open>normalizeQuote\<close>, named for the statements about it:
  the identifier read from the record (\<open>id\<close>, else \<open>Id\<close>, as a trimmed string) and
  the date read from it (\<open>date\<close>, else \<open>Date\<close>, trimmed and cut at the first
  \<open>T\<close>) before the current day is substituted for an empty one.
\<close>

definition rawIdOf :: "platform \<Rightarrow> jsval \<Rightarrow> string" where
  "rawIdOf p data =
     trim (ToString p (js_or (js_or (field data ''id'') (field data ''Id'')) (JStr [])))"

definition rawDateOf :: "platform \<Rightarrow> jsval \<Rightarrow> string" where
  "rawDateOf p data =
     (let dateStr0 = trim (ToString p
            (js_or (js_or (field data ''date'') (field data ''Date'')) (JStr [])))
      in if CHR ''T'' \<in> set dateStr0 then beforeT dateStr0 else dateStr0)"

text \<open>The value that \<open>normalizeQuote\<close> hands to \<open>parseLineItems\<close>.\<close>

definition rawLineItemsOf :: "jsval \<Rightarrow> jsval" where
  "rawLineItemsOf data = js_or (field data ''lineItems'') (field data ''line_items'')"

text \<open>A quotation with two line items, 2 at 1000 and 1 at 2.5, and a discount of 100; and
  one whose only line item is \<open>null\<close>.\<close>

definition sampleItems :: "jsval list" where
  "sampleItems =
     [JObj [(''id'', JStr ''1''), (''description'', JStr ''Tyre''),
            (''quantity'', JNum (Fin 2)), (''unitAmount'', JNum (Fin 1000))],
      JObj [(''id'', JStr ''2''), (''description'', JStr ''Valve''),
            (''quantity'', JNum (Fin 1)), (''unitAmount'', JNum (Fin (5 / 2)))]]"

definition sampleCard :: "bool \<Rightarrow> Quotation" where
  "sampleCard opt =
     (sampleQuote ''a1'' ''Q-1'' ''2024-01-05'' ''Ravi'')
       \<lparr> lineItems := JArr sampleItems, discount := Fin 100, isOptionQuote := opt \<rparr>"

definition nullItemCard :: "bool \<Rightarrow> Quotation" where
  "nullItemCard opt =
     (sampleQuote ''a1'' ''Q-1'' ''2024-01-05'' ''Ravi'')
       \<lparr> lineItems := JArr [JNull], isOptionQuote := opt \<rparr>"



section \<open>Normalization and fingerprints\<close>

lemma toLowerChar_idem: "toLowerChar (toLowerChar c) = toLowerChar c"
  by (auto simp: toLowerChar_def Let_def)

lemma toLowerCase_idem: "toLowerCase (toLowerCase s) = toLowerCase s"
  by (simp add: toLowerCase_def toLowerChar_idem)

lemma toLowerChar_space: "toLowerChar (CHR '' '') = CHR '' ''"
  by (simp add: toLowerChar_def)

lemma isWhiteSpace_space: "isWhiteSpace (CHR '' '')"
  by (simp add: isWhiteSpace_def)

lemma set_collapseSpaces: "set (collapseSpaces s) \<subseteq> insert (CHR '' '') (set s)"
proof (induction s rule: collapseSpaces.induct)
  case 1
  then show ?case by simp
next
  case (2 c cs)
  have "set (dropWhile isWhiteSpace cs) \<subseteq> set cs"
    using set_dropWhileD by fastforce
  with 2 show ?case by auto
qed

lemma toLowerCase_fixed: "(\<forall>c\<in>set s. toLowerChar c = c) \<Longrightarrow> toLowerCase s = s"
  by (simp add: toLowerCase_def map_idI)

lemma last_dropWhile: "dropWhile P xs \<noteq> [] \<Longrightarrow> last (dropWhile P xs) = last xs"
  by (induction xs) (auto split: if_splits)

lemma noEdgeSpace_trim: "noEdgeSpace (trim s)"
proof -
  let ?a = "dropWhile isWhiteSpace s"
  let ?b = "dropWhile isWhiteSpace (rev ?a)"
  show ?thesis
  proof (cases "?b = []")
    case True
    then show ?thesis by (simp add: noEdgeSpace_def trim_def)
  next
    case False
    have a: "?a \<noteq> []"
    proof
      assume "?a = []"
      then have "?b = []" by (metis dropWhile.simps(1) rev.simps(1))
      with False show False by simp
    qed
    have l: "\<not> isWhiteSpace (hd ?b)" using False by (metis hd_dropWhile)
    have h0: "\<not> isWhiteSpace (hd ?a)" using a by (metis hd_dropWhile)
    have "last ?b = last (rev ?a)" using False by (rule last_dropWhile)
    then have "last ?b = hd ?a" using a by (simp add: last_rev)
    then show ?thesis using False l h0
      by (simp add: noEdgeSpace_def trim_def last_rev hd_rev)
  qed
qed

lemma trim_fixed: "noEdgeSpace s \<Longrightarrow> trim s = s"
proof (cases "s = []")
  case True
  then show ?thesis by (simp add: trim_def)
next
  case False
  assume "noEdgeSpace s"
  with False have h: "\<not> isWhiteSpace (hd s)" and l: "\<not> isWhiteSpace (last s)"
    by (auto simp: noEdgeSpace_def)
  have 1: "dropWhile isWhiteSpace s = s"
    using h False by (simp add: dropWhile_eq_self_iff)
  have 2: "dropWhile isWhiteSpace (rev s) = rev s"
    using l False by (simp add: dropWhile_eq_self_iff hd_rev)
  show ?thesis by (simp add: trim_def 1 2)
qed

lemma collapseSpaces_hd:
  "s \<noteq> [] \<Longrightarrow> \<not> isWhiteSpace (hd s) \<Longrightarrow>
   collapseSpaces s \<noteq> [] \<and> hd (collapseSpaces s) = hd s"
  by (cases s) simp_all

lemma collapseSpaces_last:
  "s \<noteq> [] \<Longrightarrow> \<not> isWhiteSpace (last s) \<Longrightarrow>
   collapseSpaces s \<noteq> [] \<and> last (collapseSpaces s) = last s"
proof (induction s rule: collapseSpaces.induct)
  case 1
  then show ?case by simp
next
  case (2 c cs)
  show ?case
  proof (cases "isWhiteSpace c")
    case True
    with 2(4) have cs: "cs \<noteq> []" by auto
    with 2(4) have lc: "\<not> isWhiteSpace (last cs)" by simp
    let ?d = "dropWhile isWhiteSpace cs"
    have d: "?d \<noteq> []"
      using cs lc by (metis dropWhile_eq_Nil_conv last_in_set)
    then have ld: "last ?d = last cs" by (rule last_dropWhile)
    from 2(1) [OF True d] ld lc
    have "collapseSpaces ?d \<noteq> [] \<and> last (collapseSpaces ?d) = last cs" by simp
    with True cs show ?thesis by simp
  next
    case False
    show ?thesis
    proof (cases "cs = []")
      case True
      with False show ?thesis by simp
    next
      case cs: False
      with 2(4) have "\<not> isWhiteSpace (last cs)" by simp
      from 2(2) [OF False cs this] False cs show ?thesis by simp
    qed
  qed
qed

lemma noEdgeSpace_collapseSpaces: "noEdgeSpace s \<Longrightarrow> noEdgeSpace (collapseSpaces s)"
proof (cases "s = []")
  case True
  then show ?thesis by (simp add: noEdgeSpace_def)
next
  case False
  assume "noEdgeSpace s"
  with False have h: "\<not> isWhiteSpace (hd s)" and l: "\<not> isWhiteSpace (last s)"
    by (auto simp: noEdgeSpace_def)
  from collapseSpaces_hd [OF False h] collapseSpaces_last [OF False l] h l
  show ?thesis by (simp add: noEdgeSpace_def)
qed

lemma dropWhile_collapseSpaces:
  "s = [] \<or> \<not> isWhiteSpace (hd s) \<Longrightarrow>
   dropWhile isWhiteSpace (collapseSpaces s) = collapseSpaces s"
  by (cases s) auto

lemma collapseSpaces_idem: "collapseSpaces (collapseSpaces s) = collapseSpaces s"
proof (induction s rule: collapseSpaces.induct)
  case 1
  then show ?case by simp
next
  case (2 c cs)
  show ?case
  proof (cases "isWhiteSpace c")
    case True
    let ?d = "dropWhile isWhiteSpace cs"
    have "?d = [] \<or> \<not> isWhiteSpace (hd ?d)" by (metis hd_dropWhile)
    then have "dropWhile isWhiteSpace (collapseSpaces ?d) = collapseSpaces ?d"
      by (rule dropWhile_collapseSpaces)
    with True 2(1) show ?thesis by (simp add: isWhiteSpace_space)
  next
    case False
    with 2(2) show ?thesis by simp
  qed
qed

lemma lower_fixed_toLowerCase: "\<forall>c\<in>set (toLowerCase s). toLowerChar c = c"
  by (auto simp: toLowerCase_def toLowerChar_idem)

lemma set_trim: "set (trim s) \<subseteq> set s"
  by (auto simp: trim_def dest!: set_dropWhileD)

lemma normalize_JStr: "normalize p (JStr s) = collapseSpaces (trim (toLowerCase s))"
  by (simp add: normalize_def)

lemma normalize_cases:
  "normalize p v = [] \<or> normalize p v = collapseSpaces (trim (toLowerCase (ToString p v)))"
  by (simp add: normalize_def)

lemma normal_form_parts:
  assumes "n = collapseSpaces (trim (toLowerCase s))"
  shows "toLowerCase n = n" and "trim n = n" and "collapseSpaces n = n"
proof -
  have "\<forall>c\<in>set n. toLowerChar c = c"
  proof
    fix c assume "c \<in> set n"
    then have "c = CHR '' '' \<or> c \<in> set (trim (toLowerCase s))"
      using set_collapseSpaces [of "trim (toLowerCase s)"] assms by auto
    then have "c = CHR '' '' \<or> c \<in> set (toLowerCase s)"
      using set_trim [of "toLowerCase s"] by auto
    then show "toLowerChar c = c"
      using lower_fixed_toLowerCase [of s] toLowerChar_space by auto
  qed
  then show "toLowerCase n = n" by (rule toLowerCase_fixed)
  show "trim n = n"
    unfolding assms
    by (rule trim_fixed, rule noEdgeSpace_collapseSpaces, rule noEdgeSpace_trim)
  show "collapseSpaces n = n"
    unfolding assms by (rule collapseSpaces_idem)
qed

lemma normalize_fixed: "normalize p (JStr (normalize p v)) = normalize p v"
proof (cases "normalize p v = []")
  case True
  then show ?thesis by (simp add: normalize_JStr toLowerCase_def trim_def)
next
  case False
  with normalize_cases [of p v]
  have n: "normalize p v = collapseSpaces (trim (toLowerCase (ToString p v)))" by simp
  show ?thesis
    by (simp only: normalize_JStr normal_form_parts [OF n])
qed

lemma collapseSpaces_append_sep:
  "\<not> isWhiteSpace c \<Longrightarrow>
   collapseSpaces (a @ c # b) = collapseSpaces a @ c # collapseSpaces b"
proof (induction a rule: collapseSpaces.induct)
  case 1
  then show ?case by simp
next
  case (2 x xs)
  show ?case
  proof (cases "isWhiteSpace x")
    case True
    have "dropWhile isWhiteSpace (xs @ c # b) = dropWhile isWhiteSpace xs @ c # b"
      using 2(3) by (induction xs) auto
    with True 2(1) [OF True 2(3)] show ?thesis by simp
  next
    case False
    with 2(2) [OF False 2(3)] show ?thesis by simp
  qed
qed

lemma underscore_plain:
  "\<not> isWhiteSpace (CHR ''_'')" "toLowerChar (CHR ''_'') = CHR ''_''"
  by (simp_all add: isWhiteSpace_def toLowerChar_def)

lemma split_at_sep:
  "c \<notin> set a \<Longrightarrow> c \<notin> set a' \<Longrightarrow> a @ c # b = a' @ c # b' \<Longrightarrow> a = a' \<and> b = b'"
proof (induction a arbitrary: a')
  case Nil
  then show ?case by (cases a') auto
next
  case (Cons x xs)
  then show ?case by (cases a') auto
qed

lemma toLowerChar_underscore: "toLowerChar c = CHR ''_'' \<longleftrightarrow> c = CHR ''_''"
proof
  assume a: "toLowerChar c = CHR ''_''"
  show "c = CHR ''_''"
  proof (rule ccontr)
    assume n: "c \<noteq> CHR ''_''"
    let ?n = "of_char c :: nat"
    have lt: "?n < 256" by simp
    from a n have shifted: "(65 \<le> ?n \<and> ?n \<le> 90) \<or> (192 \<le> ?n \<and> ?n \<le> 222 \<and> ?n \<noteq> 215)"
      and e: "char_of (?n + 32) = CHR ''_''"
      by (auto simp: toLowerChar_def Let_def split: if_splits)
    from e have "(of_char (char_of (?n + 32) :: char) :: nat) = 95" by simp
    then have "(?n + 32) mod 256 = 95" by simp
    with shifted show False by (auto simp: mod_if split: if_splits)
  qed
next
  assume "c = CHR ''_''"
  then show "toLowerChar c = CHR ''_''" by (simp add: toLowerChar_def)
qed

lemma underscore_toLowerCase: "CHR ''_'' \<in> set (toLowerCase s) \<longleftrightarrow> CHR ''_'' \<in> set s"
proof
  assume "CHR ''_'' \<in> set (toLowerCase s)"
  then obtain x where "x \<in> set s" and "toLowerChar x = CHR ''_''"
    by (auto simp: toLowerCase_def)
  then show "CHR ''_'' \<in> set s" by (simp add: toLowerChar_underscore)
next
  assume "CHR ''_'' \<in> set s"
  then have "toLowerChar (CHR ''_'') \<in> set (toLowerCase s)" by (simp add: toLowerCase_def)
  then show "CHR ''_'' \<in> set (toLowerCase s)" by (simp add: underscore_plain)
qed

lemma underscore_collapseSpaces:
  "CHR ''_'' \<notin> set s \<Longrightarrow> CHR ''_'' \<notin> set (collapseSpaces s)"
  using set_collapseSpaces [of s] by auto

lemma dropWhile_sep:
  "\<not> P c \<Longrightarrow> dropWhile P (a @ c # b) = dropWhile P a @ c # b"
  by (induction a) auto

text \<open>The two halves of \<open>trim\<close>, on a string with a separator that is not white space.\<close>

lemma rtrim_sep:
  "\<not> P c \<Longrightarrow> rev (dropWhile P (rev (a @ c # b))) = a @ c # rev (dropWhile P (rev b))"
  by (simp add: dropWhile_sep)

lemma trim_sep:
  "\<not> isWhiteSpace c \<Longrightarrow>
   trim (a @ c # b) =
     dropWhile isWhiteSpace a @ c # rev (dropWhile isWhiteSpace (rev b))"
  by (simp add: trim_def dropWhile_sep)

lemma rtrim_keeps_front:
  assumes "y \<noteq> []" and "\<not> P (hd y)"
  shows "rev (dropWhile P (rev (w @ y))) = w @ rev (dropWhile P (rev y))"
proof -
  from assms have m: "hd y \<in> set (rev y)" by simp
  from dropWhile_append1 [of "hd y" "rev y" P "rev w", OF m assms(2)] show ?thesis by simp
qed

lemma rtrim_hd:
  assumes "y \<noteq> []" and "\<not> P (hd y)"
  shows "dropWhile P (rev (dropWhile P (rev y))) = rev (dropWhile P (rev y))"
proof -
  from assms obtain h t where y: "y = h # t" and h: "\<not> P h" by (cases y) auto
  have "rev (dropWhile P (rev t @ [h])) = h # rev (dropWhile P (rev t))"
    using h by (simp add: dropWhile_append)
  then show ?thesis using h by (simp add: y)
qed

lemma ltrim_rtrim:
  "dropWhile P (rev (dropWhile P (rev x))) = rev (dropWhile P (rev (dropWhile P x)))"
proof (cases "dropWhile P x = []")
  case True
  then have "\<forall>c\<in>set x. P c" by (simp add: dropWhile_eq_Nil_conv)
  then have e: "dropWhile P (rev x) = []" by (simp add: dropWhile_eq_Nil_conv)
  show ?thesis unfolding e True by simp
next
  case False
  let ?w = "takeWhile P x"
  let ?y = "dropWhile P x"
  have h: "\<not> P (hd ?y)" using False by (metis hd_dropWhile)
  have "rev (dropWhile P (rev x)) = rev (dropWhile P (rev (?w @ ?y)))" by simp
  also have "\<dots> = ?w @ rev (dropWhile P (rev ?y))"
    by (rule rtrim_keeps_front [of ?y P ?w, OF False h])
  finally have r: "rev (dropWhile P (rev x)) = ?w @ rev (dropWhile P (rev ?y))" .
  have "dropWhile P (?w @ rev (dropWhile P (rev ?y))) =
        dropWhile P (rev (dropWhile P (rev ?y)))"
    by (rule dropWhile_append2) (auto dest: set_takeWhileD)
  also have "\<dots> = rev (dropWhile P (rev ?y))" by (rule rtrim_hd [of ?y P, OF False h])
  finally show ?thesis by (simp only: r)
qed

lemma trim_alt: "trim s = dropWhile isWhiteSpace (rev (dropWhile isWhiteSpace (rev s)))"
  by (simp add: trim_def ltrim_rtrim)

text \<open>Collapsing white space commutes with both halves of \<open>trim\<close>.\<close>

lemma collapseSpaces_Nil_iff: "collapseSpaces s = [] \<longleftrightarrow> s = []"
  by (cases s) auto

lemma collapseSpaces_snoc:
  "collapseSpaces (xs @ [c]) =
     (if isWhiteSpace c
      then (if xs \<noteq> [] \<and> isWhiteSpace (last xs) then collapseSpaces xs
            else collapseSpaces xs @ [CHR '' ''])
      else collapseSpaces xs @ [c])"
proof (induction xs rule: collapseSpaces.induct)
  case 1
  then show ?case by simp
next
  case (2 x xs)
  show ?case
  proof (cases "isWhiteSpace x")
    case True
    let ?d = "dropWhile isWhiteSpace xs"
    show ?thesis
    proof (cases "?d = []")
      case d: True
      then have all: "\<forall>y\<in>set xs. isWhiteSpace y" by (simp add: dropWhile_eq_Nil_conv)
      then have "dropWhile isWhiteSpace (xs @ [c]) = dropWhile isWhiteSpace [c]"
        by (simp add: dropWhile_append2)
      moreover have "xs \<noteq> [] \<longrightarrow> isWhiteSpace (last xs)" using all by auto
      ultimately show ?thesis using True by (auto simp: d)
    next
      case d: False
      then have "\<exists>y\<in>set xs. \<not> isWhiteSpace y" by (auto simp: dropWhile_eq_Nil_conv)
      then have a: "dropWhile isWhiteSpace (xs @ [c]) = ?d @ [c]"
        by (auto simp: dropWhile_append1)
      have l: "last ?d = last xs" by (rule last_dropWhile [OF d])
      have x: "xs \<noteq> []" using d by auto
      from 2(1) [OF True] True a l x d show ?thesis by (simp add: collapseSpaces_Nil_iff)
    qed
  next
    case False
    with 2(2) [OF False] show ?thesis by auto
  qed
qed

lemma collapseSpaces_ltrim:
  "collapseSpaces (dropWhile isWhiteSpace s) = dropWhile isWhiteSpace (collapseSpaces s)"
proof (cases s)
  case Nil
  then show ?thesis by simp
next
  case (Cons c cs)
  show ?thesis
  proof (cases "isWhiteSpace c")
    case True
    let ?d = "dropWhile isWhiteSpace cs"
    have "?d = [] \<or> \<not> isWhiteSpace (hd ?d)" by (metis hd_dropWhile)
    then have "dropWhile isWhiteSpace (collapseSpaces ?d) = collapseSpaces ?d"
      by (rule dropWhile_collapseSpaces)
    with True Cons show ?thesis by (simp add: isWhiteSpace_space)
  next
    case False
    with Cons show ?thesis by simp
  qed
qed

lemma collapseSpaces_rtrim:
  "collapseSpaces (rev (dropWhile isWhiteSpace (rev s))) =
   rev (dropWhile isWhiteSpace (rev (collapseSpaces s)))"
proof (induction s rule: rev_induct)
  case Nil
  then show ?case by simp
next
  case (snoc c xs)
  show ?case
  proof (cases "isWhiteSpace c")
    case True
    with snoc show ?thesis by (simp add: collapseSpaces_snoc isWhiteSpace_space)
  next
    case False
    then show ?thesis by (simp add: collapseSpaces_snoc)
  qed
qed

lemma collapseSpaces_trim: "collapseSpaces (trim s) = trim (collapseSpaces s)"
  by (simp add: trim_def collapseSpaces_rtrim collapseSpaces_ltrim)

text \<open>The fingerprint is the three fields, each lower-cased and collapsed, the date
  trimmed on the left and the quote number on the right.\<close>

lemma fingerprint_parts:
  "getQuoteFingerprint p q =
     collapseSpaces (dropWhile isWhiteSpace (toLowerCase (date q))) @ CHR ''_'' #
     collapseSpaces (toLowerCase (customerName q)) @ CHR ''_'' #
     collapseSpaces (rev (dropWhile isWhiteSpace (rev (toLowerCase (quoteNumber q)))))"
proof -
  let ?d = "toLowerCase (date q)"
  let ?c = "toLowerCase (customerName q)"
  let ?n = "toLowerCase (quoteNumber q)"
  have l: "toLowerCase (date q @ ''_'' @ customerName q @ ''_'' @ quoteNumber q) =
           ?d @ CHR ''_'' # (?c @ CHR ''_'' # ?n)"
    by (simp add: toLowerCase_def underscore_plain)
  have t: "trim (?d @ CHR ''_'' # (?c @ CHR ''_'' # ?n)) =
           dropWhile isWhiteSpace ?d @ CHR ''_'' #
             rev (dropWhile isWhiteSpace (rev (?c @ CHR ''_'' # ?n)))"
    by (rule trim_sep) (rule underscore_plain)
  have r: "rev (dropWhile isWhiteSpace (rev (?c @ CHR ''_'' # ?n))) =
           ?c @ CHR ''_'' # rev (dropWhile isWhiteSpace (rev ?n))"
    by (rule rtrim_sep) (rule underscore_plain)
  show ?thesis
    by (simp only: getQuoteFingerprint_def normalize_JStr l t r
          collapseSpaces_append_sep [OF underscore_plain(1)])
qed

lemma normalize_of_ltrim:
  "normalize p (JStr s) =
   rev (dropWhile isWhiteSpace
     (rev (collapseSpaces (dropWhile isWhiteSpace (toLowerCase s)))))"
  by (simp add: normalize_JStr trim_def collapseSpaces_rtrim)

lemma normalize_of_rtrim:
  "normalize p (JStr s) =
   dropWhile isWhiteSpace
     (collapseSpaces (rev (dropWhile isWhiteSpace (rev (toLowerCase s)))))"
  by (simp add: normalize_JStr trim_alt collapseSpaces_ltrim)

lemma normalize_of_collapse:
  "normalize p (JStr s) = trim (collapseSpaces (toLowerCase s))"
  by (simp add: normalize_JStr collapseSpaces_trim)

lemma no_underscore_part:
  "CHR ''_'' \<notin> set s \<Longrightarrow> CHR ''_'' \<notin> set (collapseSpaces (toLowerCase s))"
  by (rule underscore_collapseSpaces) (simp add: underscore_toLowerCase)

lemma no_underscore_ltrim_part:
  assumes "CHR ''_'' \<notin> set s"
  shows "CHR ''_'' \<notin> set (collapseSpaces (dropWhile isWhiteSpace (toLowerCase s)))"
proof -
  have "set (dropWhile isWhiteSpace (toLowerCase s)) \<subseteq> set (toLowerCase s)"
    by (auto dest: set_dropWhileD)
  with assms have "CHR ''_'' \<notin> set (dropWhile isWhiteSpace (toLowerCase s))"
    by (auto simp: underscore_toLowerCase)
  then show ?thesis by (rule underscore_collapseSpaces)
qed

lemma fingerprint_injective:
  assumes da: "CHR ''_'' \<notin> set (date a)" and ca: "CHR ''_'' \<notin> set (customerName a)"
    and db: "CHR ''_'' \<notin> set (date b)" and cb: "CHR ''_'' \<notin> set (customerName b)"
    and eq: "getQuoteFingerprint p a = getQuoteFingerprint p b"
  shows "normalize p (JStr (date a)) = normalize p (JStr (date b))"
    and "normalize p (JStr (customerName a)) = normalize p (JStr (customerName b))"
    and "normalize p (JStr (quoteNumber a)) = normalize p (JStr (quoteNumber b))"
proof -
  let ?D = "\<lambda>q. collapseSpaces (dropWhile isWhiteSpace (toLowerCase (date q)))"
  let ?C = "\<lambda>q. collapseSpaces (toLowerCase (customerName q))"
  let ?N = "\<lambda>q. collapseSpaces (rev (dropWhile isWhiteSpace (rev (toLowerCase (quoteNumber q)))))"
  from eq have e: "?D a @ CHR ''_'' # (?C a @ CHR ''_'' # ?N a) =
                   ?D b @ CHR ''_'' # (?C b @ CHR ''_'' # ?N b)"
    by (simp only: fingerprint_parts)
  from split_at_sep [OF no_underscore_ltrim_part [OF da] no_underscore_ltrim_part [OF db] e]
  have d: "?D a = ?D b" and rest: "?C a @ CHR ''_'' # ?N a = ?C b @ CHR ''_'' # ?N b"
    by simp_all
  from split_at_sep [OF no_underscore_part [OF ca] no_underscore_part [OF cb] rest]
  have c: "?C a = ?C b" and n: "?N a = ?N b" by simp_all
  show "normalize p (JStr (date a)) = normalize p (JStr (date b))"
    by (simp only: normalize_of_ltrim d)
  show "normalize p (JStr (customerName a)) = normalize p (JStr (customerName b))"
    by (simp only: normalize_of_collapse c)
  show "normalize p (JStr (quoteNumber a)) = normalize p (JStr (quoteNumber b))"
    by (simp only: normalize_of_rtrim n)
qed

text \<open>
  Claim C8. \<open>normalize\<close> is idempotent: normalizing a normalized value gives the same
  string. The fingerprint does not tell apart triples that agree after normalization
  (letter case, white space), nor triples whose underscores fall between the fields
  differently. Among quotations whose date and customer name contain no underscore it is
  injective up to normalization: equal fingerprints force the dates, the customer names
  and the quote numbers to be equal after \<open>normalize\<close>, so that triples which differ after
  normalization have different fingerprints.
\<close>

theorem normalize_idempotent_fingerprint_injective:
  "normalize p (JStr (normalize p v)) = normalize p v \<and>
   (CHR ''_'' \<notin> set (date a) \<and> CHR ''_'' \<notin> set (customerName a) \<and>
    CHR ''_'' \<notin> set (date b) \<and> CHR ''_'' \<notin> set (customerName b) \<and>
    getQuoteFingerprint p a = getQuoteFingerprint p b \<longrightarrow>
      normalize p (JStr (date a)) = normalize p (JStr (date b)) \<and>
      normalize p (JStr (customerName a)) = normalize p (JStr (customerName b)) \<and>
      normalize p (JStr (quoteNumber a)) = normalize p (JStr (quoteNumber b)))"
proof (rule conjI)
  show "normalize p (JStr (normalize p v)) = normalize p v" by (rule normalize_fixed)
next
  show "CHR ''_'' \<notin> set (date a) \<and> CHR ''_'' \<notin> set (customerName a) \<and>
    CHR ''_'' \<notin> set (date b) \<and> CHR ''_'' \<notin> set (customerName b) \<and>
    getQuoteFingerprint p a = getQuoteFingerprint p b \<longrightarrow>
      normalize p (JStr (date a)) = normalize p (JStr (date b)) \<and>
      normalize p (JStr (customerName a)) = normalize p (JStr (customerName b)) \<and>
      normalize p (JStr (quoteNumber a)) = normalize p (JStr (quoteNumber b))"
  proof
    assume h: "CHR ''_'' \<notin> set (date a) \<and> CHR ''_'' \<notin> set (customerName a) \<and>
      CHR ''_'' \<notin> set (date b) \<and> CHR ''_'' \<notin> set (customerName b) \<and>
      getQuoteFingerprint p a = getQuoteFingerprint p b"
    then have da: "CHR ''_'' \<notin> set (date a)" and ca: "CHR ''_'' \<notin> set (customerName a)"
      and db: "CHR ''_'' \<notin> set (date b)" and cb: "CHR ''_'' \<notin> set (customerName b)"
      and eq: "getQuoteFingerprint p a = getQuoteFingerprint p b"
      by simp_all
    from fingerprint_injective [OF da ca db cb eq]
    show "normalize p (JStr (date a)) = normalize p (JStr (date b)) \<and>
      normalize p (JStr (customerName a)) = normalize p (JStr (customerName b)) \<and>
      normalize p (JStr (quoteNumber a)) = normalize p (JStr (quoteNumber b))"
      by simp
  qed
qed

theorem normalize_idempotent_fingerprint_injective_witness:
  "normalize samplePlatform (JStr (normalize samplePlatform (JStr ''  Ravi   Kumar ''))) =
     ''ravi kumar'' \<and>
   getQuoteFingerprint samplePlatform (sampleQuote ''1'' ''Q-1'' ''2024-01-05'' ''Ravi'') =
   getQuoteFingerprint samplePlatform (sampleQuote ''2'' ''q-1 '' '' 2024-01-05'' ''RAVI'') \<and>
   normalize samplePlatform (JStr (customerName (sampleQuote ''1'' ''Q-1'' ''2024-01-05'' ''Ravi''))) =
   normalize samplePlatform (JStr (customerName (sampleQuote ''2'' ''q-1 '' '' 2024-01-05'' ''RAVI''))) \<and>
   normalize samplePlatform (JStr (quoteNumber (sampleQuote ''1'' ''Q-1'' ''2024-01-05'' ''Ravi''))) =
   normalize samplePlatform (JStr (quoteNumber (sampleQuote ''2'' ''q-1 '' '' 2024-01-05'' ''RAVI'')))"
proof -
  have n: "normalize samplePlatform (JStr ''  Ravi   Kumar '') = ''ravi kumar''"
    by code_simp
  have h: "CHR ''_'' \<notin> set (date (sampleQuote ''1'' ''Q-1'' ''2024-01-05'' ''Ravi'')) \<and>
    CHR ''_'' \<notin> set (customerName (sampleQuote ''1'' ''Q-1'' ''2024-01-05'' ''Ravi'')) \<and>
    CHR ''_'' \<notin> set (date (sampleQuote ''2'' ''q-1 '' '' 2024-01-05'' ''RAVI'')) \<and>
    CHR ''_'' \<notin> set (customerName (sampleQuote ''2'' ''q-1 '' '' 2024-01-05'' ''RAVI'')) \<and>
    getQuoteFingerprint samplePlatform (sampleQuote ''1'' ''Q-1'' ''2024-01-05'' ''Ravi'') =
    getQuoteFingerprint samplePlatform (sampleQuote ''2'' ''q-1 '' '' 2024-01-05'' ''RAVI'')"
    by code_simp
  note T = normalize_idempotent_fingerprint_injective
         [of samplePlatform "JStr ''  Ravi   Kumar ''"
             "sampleQuote ''1'' ''Q-1'' ''2024-01-05'' ''Ravi''"
             "sampleQuote ''2'' ''q-1 '' '' 2024-01-05'' ''RAVI''"]
  from T [THEN conjunct1] n T [THEN conjunct2, THEN mp, OF h] h
  show ?thesis by simp
qed

text \<open>
  Two pairs of quotations with distinct triples and the same fingerprint: customer names
  that differ in letter case only, and an underscore that moves from the customer name to
  the quote number.
\<close>

theorem fingerprint_collision_counterexample:
  "getQuoteFingerprint samplePlatform (sampleQuote ''1'' ''Q-1'' ''2024-01-05'' ''Ravi'') =
   getQuoteFingerprint samplePlatform (sampleQuote ''2'' ''Q-1'' ''2024-01-05'' ''ravi'') \<and>
   customerName (sampleQuote ''1'' ''Q-1'' ''2024-01-05'' ''Ravi'') \<noteq>
   customerName (sampleQuote ''2'' ''Q-1'' ''2024-01-05'' ''ravi'') \<and>
   getQuoteFingerprint samplePlatform (sampleQuote ''3'' ''c'' ''2024-01-05'' ''a_b'') =
   getQuoteFingerprint samplePlatform (sampleQuote ''4'' ''b_c'' ''2024-01-05'' ''a'') \<and>
   customerName (sampleQuote ''3'' ''c'' ''2024-01-05'' ''a_b'') \<noteq>
   customerName (sampleQuote ''4'' ''b_c'' ''2024-01-05'' ''a'')"
  by code_simp

section \<open>The tombstone filter of a sync\<close>

lemma setHas_JStr [simp]: "setHas s (JStr x) \<longleftrightarrow> JStr x \<in> set s"
  by (simp add: setHas_def isPrimitive_def)

lemma set_setAdd: "set (setAdd s x) = insert x (set s)"
  by (auto simp: setAdd_def setHas_def)

lemma set_foldl_setAdd: "set (foldl setAdd acc xs) = set acc \<union> set xs"
  by (induction xs arbitrary: acc) (auto simp: set_setAdd)



lemma quotes_emit [simp]: "quotes (emit e st) = quotes st"
  and store_emit [simp]: "store (emit e st) = store st"
  and pauseSync_emit [simp]: "pauseSync (emit e st) = pauseSync st"
  and serviceOn_emit [simp]: "serviceOn (emit e st) = serviceOn st"
  and errorMsg_emit [simp]: "errorMsg (emit e st) = errorMsg st"
  and isSyncing_emit [simp]: "isSyncing (emit e st) = isSyncing st"
  and selectedQuote_emit [simp]: "selectedQuote (emit e st) = selectedQuote st"
  and trace_emit [simp]: "trace (emit e st) = trace st @ [e]"
  by (simp_all add: emit_def)





section \<open>Saving to the remote store\<close>

lemma saveQuote_NetworkFailure:
  "snd (saveQuote p quote NetworkFailure) = Inl NetworkError"
  by (simp add: saveQuote_def)

lemma saveQuote_Response:
  "snd (saveQuote p quote (Response ok code text)) =
     (if (JSON_parse p text = None \<or> (\<exists>r. JSON_parse p text = Some r \<and> isNullish r)) \<and>
         startsWith (trim text) ''<''
      then Inl HtmlError else Inr ())"
  by (auto simp: saveQuote_def split: option.splits)

text \<open>
  Claim C5, as amended. \<open>saveQuote\<close> throws exactly when the POST fails at the
  network level, or when the body cannot be used as a JSON value (\<open>JSON.parse\<close> throws
  or gives \<open>null\<close>) and its trimmed text starts with \<open><\<close>; the HTTP status is not
  consulted. A malformed body that does not start with \<open><\<close> is swallowed without a
  log entry; an object whose status is not \<open>success\<close> is logged as a warning and not
  thrown.
\<close>

theorem saveQuote_throws_iff:
  "(snd (saveQuote p quote outcome) = Inl e \<longleftrightarrow>
      (outcome = NetworkFailure \<and> e = NetworkError) \<or>
      (\<exists>ok code text. outcome = Response ok code text \<and>
         (JSON_parse p text = None \<or> (\<exists>r. JSON_parse p text = Some r \<and> isNullish r)) \<and>
         startsWith (trim text) ''<'' \<and> e = HtmlError)) \<and>
   (JSON_parse p body = None \<and> \<not> startsWith (trim body) ''<'' \<longrightarrow>
      saveQuote p quote (Response ok' code' body) = ([], Inr ())) \<and>
   (JSON_parse p body = Some (JObj kvs) \<and> map_of kvs ''status'' \<noteq> Some (JStr ''success'') \<longrightarrow>
      saveQuote p quote (Response ok' code' body) = ([LogWarn ''Save response status:''], Inr ()))"
proof (intro conjI)
  show "snd (saveQuote p quote outcome) = Inl e \<longleftrightarrow>
      (outcome = NetworkFailure \<and> e = NetworkError) \<or>
      (\<exists>ok code text. outcome = Response ok code text \<and>
         (JSON_parse p text = None \<or> (\<exists>r. JSON_parse p text = Some r \<and> isNullish r)) \<and>
         startsWith (trim text) ''<'' \<and> e = HtmlError)"
  proof (cases outcome)
    case NetworkFailure
    then show ?thesis by (auto simp: saveQuote_NetworkFailure)
  next
    case (Response okay st body)
    then show ?thesis by (auto simp: saveQuote_Response)
  qed
next
  show "JSON_parse p body = None \<and> \<not> startsWith (trim body) ''<'' \<longrightarrow>
      saveQuote p quote (Response ok' code' body) = ([], Inr ())"
    by (simp add: saveQuote_def)
next
  show "JSON_parse p body = Some (JObj kvs) \<and> map_of kvs ''status'' \<noteq> Some (JStr ''success'') \<longrightarrow>
      saveQuote p quote (Response ok' code' body) = ([LogWarn ''Save response status:''], Inr ())"
    by (auto simp: saveQuote_def isNullish_def split: option.splits)
qed

theorem saveQuote_throws_iff_witness:
  "JSON_parse samplePlatform ''oops'' = None \<and> \<not> startsWith (trim ''oops'') ''<'' \<and>
   saveQuote samplePlatform (sampleQuote ''a1'' ''Q-1'' ''2024-01-05'' ''Ravi'')
     (Response True 200 ''oops'') = ([], Inr ()) \<and>
   JSON_parse samplePlatform ''{\"status\":\"error\"}'' = Some (JObj [(''status'', JStr ''error'')]) \<and>
   map_of [(''status'', JStr ''error'')] ''status'' \<noteq> Some (JStr ''success'') \<and>
   saveQuote samplePlatform (sampleQuote ''a1'' ''Q-1'' ''2024-01-05'' ''Ravi'')
     (Response False 500 ''{\"status\":\"error\"}'') = ([LogWarn ''Save response status:''], Inr ()) \<and>
   snd (saveQuote samplePlatform (sampleQuote ''a1'' ''Q-1'' ''2024-01-05'' ''Ravi'')
     NetworkFailure) = Inl NetworkError"
proof -
  let ?q = "sampleQuote ''a1'' ''Q-1'' ''2024-01-05'' ''Ravi''"
  have h1: "JSON_parse samplePlatform ''oops'' = None \<and> \<not> startsWith (trim ''oops'') ''<''"
    by code_simp
  have h2: "JSON_parse samplePlatform ''{\"status\":\"error\"}'' =
              Some (JObj [(''status'', JStr ''error'')]) \<and>
            map_of [(''status'', JStr ''error'')] ''status'' \<noteq> Some (JStr ''success'')"
    by code_simp
  from saveQuote_throws_iff [of samplePlatform ?q NetworkFailure NetworkError
         "''oops''" True 200 "[(''status'', JStr ''error'')]"] h1
  have a: "saveQuote samplePlatform ?q (Response True 200 ''oops'') = ([], Inr ())"
    and c: "snd (saveQuote samplePlatform ?q NetworkFailure) = Inl NetworkError"
    by blast+
  from saveQuote_throws_iff [of samplePlatform ?q NetworkFailure NetworkError
         "''{\"status\":\"error\"}''" False 500 "[(''status'', JStr ''error'')]"] h2
  have b: "saveQuote samplePlatform ?q (Response False 500 ''{\"status\":\"error\"}'') =
             ([LogWarn ''Save response status:''], Inr ())"
    by blast
  from h1 h2 a b c show ?thesis by blast
qed

text \<open>
  An HTML body on a save: \<open>JSON.parse\<close> throws, the body starts with \<open><\<close>, and
  \<open>saveQuote\<close> throws.
\<close>

theorem saveQuote_html_counterexample:
  "JSON_parse samplePlatform ''<html></html>'' = None \<and>
   snd (saveQuote samplePlatform (sampleQuote ''a1'' ''Q-1'' ''2024-01-05'' ''Ravi'')
     (Response True 200 ''<html></html>'')) = Inl HtmlError"
  by code_simp

section \<open>Deleting a quotation\<close>

lemmas app_defs = setPause_def writeLedger_def setQuotes_def writeCache_def emit_def

lemma find_Some_id:
  "find (\<lambda>x. id' x = i) qs = Some q \<Longrightarrow> id' q = i \<and> q \<in> set qs"
  by (auto simp: find_Some_iff)

lemma errorMsg_handleDeleteQuote:
  "errorMsg (handleDeleteQuote p r i st) = errorMsg st"
  by (simp add: handleDeleteQuote_def Let_def app_defs split: option.splits prod.splits)


text \<open>What the handler leaves behind when it finds the quotation in the list of its
  render.\<close>

lemma handleDeleteQuote_found:
  assumes f: "find (\<lambda>x. id' x = i) (quotes r) = Some q"
    and g: "getLocallyBlacklistedItems p (store st) = (ids, numbers, fingerprints)"
  shows "quotes (handleDeleteQuote p r i st) = filter (\<lambda>x. id' x \<noteq> i) (quotes r)"
    and "tyreQuotes (store (handleDeleteQuote p r i st)) =
           Some (filter (\<lambda>x. id' x \<noteq> i) (quotes r))"
    and "bl_ids (store (handleDeleteQuote p r i st)) =
           Parsed (JArr (if i \<noteq> [] then setAdd ids (JStr (normalize p (JStr i))) else ids))"
    and "bl_numbers (store (handleDeleteQuote p r i st)) =
           Parsed (JArr (if quoteNumber q \<noteq> []
                         then setAdd numbers (JStr (normalize p (JStr (quoteNumber q))))
                         else numbers))"
    and "bl_fingerprints (store (handleDeleteQuote p r i st)) =
           Parsed (JArr (setAdd fingerprints (JStr (getQuoteFingerprint p q))))"
    and "pauseSync (handleDeleteQuote p r i st) = serviceOn r"
    and "trace (handleDeleteQuote p r i st) =
           trace st @ [PauseSet True, LedgerWrite, QuotesSet, CacheWrite] @
           (if serviceOn r then [DeleteCall q] else [PauseSet False])"
proof -
  have i: "id' q = i" using find_Some_id [OF f] by (rule conjunct1)
  have g': "getLocallyBlacklistedItems p (store (setPause True st)) =
            (ids, numbers, fingerprints)"
    using g by (simp add: app_defs)
  note d = handleDeleteQuote_def f option.case Let_def g' prod.case i
  show "quotes (handleDeleteQuote p r i st) = filter (\<lambda>x. id' x \<noteq> i) (quotes r)"
    unfolding d by (simp add: app_defs)
  show "tyreQuotes (store (handleDeleteQuote p r i st)) =
           Some (filter (\<lambda>x. id' x \<noteq> i) (quotes r))"
    unfolding d by (simp add: app_defs)
  show "bl_ids (store (handleDeleteQuote p r i st)) =
           Parsed (JArr (if i \<noteq> [] then setAdd ids (JStr (normalize p (JStr i))) else ids))"
    unfolding d by (simp add: app_defs)
  show "bl_numbers (store (handleDeleteQuote p r i st)) =
           Parsed (JArr (if quoteNumber q \<noteq> []
                         then setAdd numbers (JStr (normalize p (JStr (quoteNumber q))))
                         else numbers))"
    unfolding d by (simp add: app_defs)
  show "bl_fingerprints (store (handleDeleteQuote p r i st)) =
           Parsed (JArr (setAdd fingerprints (JStr (getQuoteFingerprint p q))))"
    unfolding d by (simp add: app_defs)
  show "pauseSync (handleDeleteQuote p r i st) = serviceOn r"
    unfolding d by (simp add: app_defs)
  show "trace (handleDeleteQuote p r i st) =
           trace st @ [PauseSet True, LedgerWrite, QuotesSet, CacheWrite] @
           (if serviceOn r then [DeleteCall q] else [PauseSet False])"
    unfolding d by (simp add: app_defs)
qed

lemma softDeleteRequest_keys:
  "\<exists>kvs. softDeleteRequest quote =
           Post ''save'' (JObj [(''action'', JStr ''save''), (''quote'', JObj kvs)]) \<and>
         map_of kvs ''status'' = Some (JStr ''Deleted'') \<and>
         map_of kvs ''id'' = Some (JStr (id' quote)) \<and>
         map_of kvs ''Id'' = Some (JStr (id' quote)) \<and>
         map_of kvs ''ID'' = Some (JStr (id' quote)) \<and>
         map_of kvs ''quoteNumber'' = Some (JStr (quoteNumber quote)) \<and>
         map_of kvs ''quote_number'' = Some (JStr (quoteNumber quote))"
  by (simp add: softDeleteRequest_def update_conv' quoteObject_def)

lemma hardDeleteRequest_keys:
  "\<exists>kvs. hardDeleteRequest quote = Post ''delete'' (JObj kvs) \<and>
         map_of kvs ''action'' = Some (JStr ''delete'') \<and>
         map_of kvs ''id'' = Some (JStr (id' quote)) \<and>
         map_of kvs ''Id'' = Some (JStr (id' quote)) \<and>
         map_of kvs ''ID'' = Some (JStr (id' quote)) \<and>
         map_of kvs ''quote_number'' = Some (JStr (quoteNumber quote)) \<and>
         map_of kvs ''quoteNumber'' = Some (JStr (quoteNumber quote))"
  by (simp add: hardDeleteRequest_def)

lemmas promise_defs = tryCatch_def andThen_def awaitPost_def firePost_def consoleError_def

lemma deleteQuote_resolves: "snd (deleteQuote quote soft hard) = Inr ()"
  by (simp add: deleteQuote_def promise_defs split: http_outcome.splits)

lemma deleteQuote_soft_sent:
  "soft \<noteq> NetworkFailure \<Longrightarrow>
   fst (deleteQuote quote soft hard) =
     \<lparr> awaited = [softDeleteRequest quote], detached = [hardDeleteRequest quote],
       logged = [] \<rparr>"
  by (simp add: deleteQuote_def promise_defs split: http_outcome.splits)

lemma deleteQuote_soft_failed:
  "soft = NetworkFailure \<Longrightarrow>
   fst (deleteQuote quote soft hard) =
     \<lparr> awaited = [softDeleteRequest quote, hardDeleteRequest quote], detached = [],
       logged = LogError ''Backend delete failed'' #
         (if hard = NetworkFailure then [LogError ''Hard delete also failed''] else []) \<rparr>"
  by (simp add: deleteQuote_def promise_defs split: http_outcome.splits)

lemma after_delete_settled:
  "quotes (handleDeleteQuote_timer (handleDeleteQuote_settled d s)) = quotes s"
  "store (handleDeleteQuote_timer (handleDeleteQuote_settled d s)) = store s"
  "errorMsg (handleDeleteQuote_timer (handleDeleteQuote_settled d s)) = errorMsg s"
  by (simp_all add: handleDeleteQuote_timer_def handleDeleteQuote_settled_def app_defs
      split: sum.splits)

lemma handleDeleteQuote_local:
  assumes f: "find (\<lambda>x. id' x = i) (quotes r) = Some quote"
  shows "let s1 = handleDeleteQuote p r i st;
             s2 = handleDeleteQuote_timer (handleDeleteQuote_settled d s1)
         in (serviceOn r \<longrightarrow> last (trace s1) = DeleteCall quote) \<and>
            quotes s2 = filter (\<lambda>x. id' x \<noteq> i) (quotes r) \<and>
            quote \<notin> set (quotes s2) \<and>
            tyreQuotes (store s2) = Some (quotes s2) \<and>
            (\<exists>ids numbers fingerprints.
               bl_ids (store s2) = Parsed (JArr ids) \<and>
               bl_numbers (store s2) = Parsed (JArr numbers) \<and>
               bl_fingerprints (store s2) = Parsed (JArr fingerprints) \<and>
               JStr (getQuoteFingerprint p quote) \<in> set fingerprints \<and>
               (id' quote \<noteq> [] \<longrightarrow> JStr (normalize p (JStr (id' quote))) \<in> set ids) \<and>
               (quoteNumber quote \<noteq> [] \<longrightarrow>
                  JStr (normalize p (JStr (quoteNumber quote))) \<in> set numbers)) \<and>
            errorMsg s2 = errorMsg st"
proof -
  have i: "id' quote = i" using find_Some_id [OF f] by (rule conjunct1)
  obtain ids0 numbers0 fingerprints0
    where g: "getLocallyBlacklistedItems p (store st) = (ids0, numbers0, fingerprints0)"
    by (cases "getLocallyBlacklistedItems p (store st)") auto
  note F = handleDeleteQuote_found [OF f g]
  let ?s1 = "handleDeleteQuote p r i st"
  have 1: "serviceOn r \<longrightarrow> last (trace ?s1) = DeleteCall quote"
    by (simp add: F(7))
  have 2: "quotes ?s1 = filter (\<lambda>x. id' x \<noteq> i) (quotes r)" by (rule F(1))
  have 3: "quote \<notin> set (quotes ?s1)" using i by (simp add: F(1))
  have 4: "tyreQuotes (store ?s1) = Some (quotes ?s1)" by (simp add: F(1) F(2))
  have 5: "\<exists>ids numbers fingerprints.
               bl_ids (store ?s1) = Parsed (JArr ids) \<and>
               bl_numbers (store ?s1) = Parsed (JArr numbers) \<and>
               bl_fingerprints (store ?s1) = Parsed (JArr fingerprints) \<and>
               JStr (getQuoteFingerprint p quote) \<in> set fingerprints \<and>
               (id' quote \<noteq> [] \<longrightarrow> JStr (normalize p (JStr (id' quote))) \<in> set ids) \<and>
               (quoteNumber quote \<noteq> [] \<longrightarrow>
                  JStr (normalize p (JStr (quoteNumber quote))) \<in> set numbers)"
    using i by (simp add: F(3) F(4) F(5) set_setAdd)
  have 6: "errorMsg ?s1 = errorMsg st" by (rule errorMsg_handleDeleteQuote)
  show ?thesis
    unfolding Let_def after_delete_settled
    by (rule conjI [OF 1 conjI [OF 2 conjI [OF 3 conjI [OF 4 conjI [OF 5 6]]]]])
qed

text \<open>
  Claim C6. \<open>deleteQuote\<close> never rejects. It first awaits the soft delete, a save
  whose quote has status \<open>Deleted\<close> and carries the identifier under \<open>id\<close>,
  \<open>Id\<close> and \<open>ID\<close> and the quote number under both spellings. When that POST
  resolves, the hard delete (the action \<open>delete\<close> with the identifier and the quote
  number of the quotation) is fired without being awaited and nothing is logged, whatever
  becomes of it; when the soft delete rejects, that hard delete is awaited as a fallback
  and its failure is only logged. In the application, for a handler that finds the
  quotation in the list of its render, the quotation stays removed from the list and the
  cache, its tombstones stay in the three ledger keys, and the error slot is untouched,
  whatever the two requests did.
\<close>

theorem deleteQuote_best_effort:
  "snd (deleteQuote quote soft hard) = Inr () \<and>
   (soft \<noteq> NetworkFailure \<longrightarrow>
      fst (deleteQuote quote soft hard) =
        \<lparr> awaited = [softDeleteRequest quote], detached = [hardDeleteRequest quote],
          logged = [] \<rparr>) \<and>
   (soft = NetworkFailure \<longrightarrow>
      fst (deleteQuote quote soft hard) =
        \<lparr> awaited = [softDeleteRequest quote, hardDeleteRequest quote], detached = [],
          logged = LogError ''Backend delete failed'' #
            (if hard = NetworkFailure then [LogError ''Hard delete also failed''] else []) \<rparr>) \<and>
   (\<exists>kvs. softDeleteRequest quote =
           Post ''save'' (JObj [(''action'', JStr ''save''), (''quote'', JObj kvs)]) \<and>
         map_of kvs ''status'' = Some (JStr ''Deleted'') \<and>
         map_of kvs ''id'' = Some (JStr (id' quote)) \<and>
         map_of kvs ''Id'' = Some (JStr (id' quote)) \<and>
         map_of kvs ''ID'' = Some (JStr (id' quote)) \<and>
         map_of kvs ''quoteNumber'' = Some (JStr (quoteNumber quote)) \<and>
         map_of kvs ''quote_number'' = Some (JStr (quoteNumber quote))) \<and>
   (\<exists>kvs. hardDeleteRequest quote = Post ''delete'' (JObj kvs) \<and>
         map_of kvs ''action'' = Some (JStr ''delete'') \<and>
         map_of kvs ''id'' = Some (JStr (id' quote)) \<and>
         map_of kvs ''Id'' = Some (JStr (id' quote)) \<and>
         map_of kvs ''ID'' = Some (JStr (id' quote)) \<and>
         map_of kvs ''quote_number'' = Some (JStr (quoteNumber quote)) \<and>
         map_of kvs ''quoteNumber'' = Some (JStr (quoteNumber quote))) \<and>
   (find (\<lambda>x. id' x = i) (quotes r) = Some quote \<longrightarrow>
      (let s1 = handleDeleteQuote p r i st;
           s2 = handleDeleteQuote_timer
                  (handleDeleteQuote_settled (snd (deleteQuote quote soft hard)) s1)
       in (serviceOn r \<longrightarrow> last (trace s1) = DeleteCall quote) \<and>
          quotes s2 = filter (\<lambda>x. id' x \<noteq> i) (quotes r) \<and>
          quote \<notin> set (quotes s2) \<and>
          tyreQuotes (store s2) = Some (quotes s2) \<and>
          (\<exists>ids numbers fingerprints.
             bl_ids (store s2) = Parsed (JArr ids) \<and>
             bl_numbers (store s2) = Parsed (JArr numbers) \<and>
             bl_fingerprints (store s2) = Parsed (JArr fingerprints) \<and>
             JStr (getQuoteFingerprint p quote) \<in> set fingerprints \<and>
             (id' quote \<noteq> [] \<longrightarrow> JStr (normalize p (JStr (id' quote))) \<in> set ids) \<and>
             (quoteNumber quote \<noteq> [] \<longrightarrow>
                JStr (normalize p (JStr (quoteNumber quote))) \<in> set numbers)) \<and>
          errorMsg s2 = errorMsg st))"
proof -
  have a: "snd (deleteQuote quote soft hard) = Inr ()"
    by (rule deleteQuote_resolves)
  have b: "soft \<noteq> NetworkFailure \<longrightarrow>
      fst (deleteQuote quote soft hard) =
        \<lparr> awaited = [softDeleteRequest quote], detached = [hardDeleteRequest quote],
          logged = [] \<rparr>"
    using deleteQuote_soft_sent [of soft quote hard] by (rule impI)
  have c: "soft = NetworkFailure \<longrightarrow>
      fst (deleteQuote quote soft hard) =
        \<lparr> awaited = [softDeleteRequest quote, hardDeleteRequest quote], detached = [],
          logged = LogError ''Backend delete failed'' #
            (if hard = NetworkFailure then [LogError ''Hard delete also failed''] else []) \<rparr>"
    using deleteQuote_soft_failed [of soft quote hard] by (rule impI)
  have app: "find (\<lambda>x. id' x = i) (quotes r) = Some quote \<longrightarrow>
      (let s1 = handleDeleteQuote p r i st;
           s2 = handleDeleteQuote_timer
                  (handleDeleteQuote_settled (snd (deleteQuote quote soft hard)) s1)
       in (serviceOn r \<longrightarrow> last (trace s1) = DeleteCall quote) \<and>
          quotes s2 = filter (\<lambda>x. id' x \<noteq> i) (quotes r) \<and>
          quote \<notin> set (quotes s2) \<and>
          tyreQuotes (store s2) = Some (quotes s2) \<and>
          (\<exists>ids numbers fingerprints.
             bl_ids (store s2) = Parsed (JArr ids) \<and>
             bl_numbers (store s2) = Parsed (JArr numbers) \<and>
             bl_fingerprints (store s2) = Parsed (JArr fingerprints) \<and>
             JStr (getQuoteFingerprint p quote) \<in> set fingerprints \<and>
             (id' quote \<noteq> [] \<longrightarrow> JStr (normalize p (JStr (id' quote))) \<in> set ids) \<and>
             (quoteNumber quote \<noteq> [] \<longrightarrow>
                JStr (normalize p (JStr (quoteNumber quote))) \<in> set numbers)) \<and>
          errorMsg s2 = errorMsg st)"
    using handleDeleteQuote_local [of i r quote p st "snd (deleteQuote quote soft hard)"]
    by (rule impI)
  show ?thesis
    by (rule conjI [OF a conjI [OF b conjI [OF c
          conjI [OF softDeleteRequest_keys conjI [OF hardDeleteRequest_keys app]]]]])
qed

theorem deleteQuote_best_effort_witness:
  "Response True 200 ''ok'' \<noteq> NetworkFailure \<and>
   find (\<lambda>x. id' x = ''a1'') (quotes sampleState) =
     Some (sampleQuote ''a1'' ''Q-1'' ''2024-01-05'' ''Ravi'') \<and>
   serviceOn sampleState \<and>
   detached (fst (deleteQuote (sampleQuote ''a1'' ''Q-1'' ''2024-01-05'' ''Ravi'')
      (Response True 200 ''ok'') NetworkFailure)) =
     [Post ''delete'' (JObj [(''action'', JStr ''delete''),
        (''id'', JStr ''a1''), (''Id'', JStr ''a1''), (''ID'', JStr ''a1''),
        (''quote_number'', JStr ''Q-1''), (''quoteNumber'', JStr ''Q-1'')])] \<and>
   snd (deleteQuote (sampleQuote ''a1'' ''Q-1'' ''2024-01-05'' ''Ravi'')
      (Response True 200 ''ok'') NetworkFailure) = Inr () \<and>
   quotes (handleDeleteQuote_timer (handleDeleteQuote_settled
      (snd (deleteQuote (sampleQuote ''a1'' ''Q-1'' ''2024-01-05'' ''Ravi'')
         (Response True 200 ''ok'') NetworkFailure))
      (handleDeleteQuote samplePlatform sampleState ''a1'' sampleState))) =
     [sampleQuote ''b2'' ''Q-2'' ''2024-01-06'' ''Asha''] \<and>
   last (trace (handleDeleteQuote samplePlatform sampleState ''a1'' sampleState)) =
     DeleteCall (sampleQuote ''a1'' ''Q-1'' ''2024-01-05'' ''Ravi'') \<and>
   errorMsg (handleDeleteQuote_timer (handleDeleteQuote_settled
      (snd (deleteQuote (sampleQuote ''a1'' ''Q-1'' ''2024-01-05'' ''Ravi'')
         (Response True 200 ''ok'') NetworkFailure))
      (handleDeleteQuote samplePlatform sampleState ''a1'' sampleState))) = None"
proof -
  let ?q = "sampleQuote ''a1'' ''Q-1'' ''2024-01-05'' ''Ravi''"
  let ?s2 = "handleDeleteQuote_timer (handleDeleteQuote_settled
      (snd (deleteQuote ?q (Response True 200 ''ok'') NetworkFailure))
      (handleDeleteQuote samplePlatform sampleState ''a1'' sampleState))"
  note T = deleteQuote_best_effort [of ?q "Response True 200 ''ok''" NetworkFailure
      "''a1''" sampleState samplePlatform sampleState, unfolded Let_def]
  have h1: "Response True 200 ''ok'' \<noteq> NetworkFailure" by simp
  have h2: "find (\<lambda>x. id' x = ''a1'') (quotes sampleState) = Some ?q" by code_simp
  have h3: "serviceOn sampleState" by code_simp
  have e0: "hardDeleteRequest ?q =
     Post ''delete'' (JObj [(''action'', JStr ''delete''),
        (''id'', JStr ''a1''), (''Id'', JStr ''a1''), (''ID'', JStr ''a1''),
        (''quote_number'', JStr ''Q-1''), (''quoteNumber'', JStr ''Q-1'')])" by code_simp
  have e1: "filter (\<lambda>x. id' x \<noteq> ''a1'') (quotes sampleState) =
            [sampleQuote ''b2'' ''Q-2'' ''2024-01-06'' ''Asha'']" by code_simp
  have e3: "errorMsg sampleState = None" by code_simp
  have r: "snd (deleteQuote ?q (Response True 200 ''ok'') NetworkFailure) = Inr ()"
    by (rule T [THEN conjunct1])
  have "fst (deleteQuote ?q (Response True 200 ''ok'') NetworkFailure) =
      \<lparr> awaited = [softDeleteRequest ?q], detached = [hardDeleteRequest ?q], logged = [] \<rparr>"
    by (rule T [THEN conjunct2, THEN conjunct1, THEN mp, OF h1])
  then have d: "detached (fst (deleteQuote ?q (Response True 200 ''ok'') NetworkFailure)) =
     [Post ''delete'' (JObj [(''action'', JStr ''delete''),
        (''id'', JStr ''a1''), (''Id'', JStr ''a1''), (''ID'', JStr ''a1''),
        (''quote_number'', JStr ''Q-1''), (''quoteNumber'', JStr ''Q-1'')])]"
    by (simp add: e0)
  note A = T [THEN conjunct2, THEN conjunct2, THEN conjunct2, THEN conjunct2, THEN conjunct2,
      THEN mp, OF h2]
  have t: "last (trace (handleDeleteQuote samplePlatform sampleState ''a1'' sampleState)) =
      DeleteCall ?q"
    by (rule A [THEN conjunct1, THEN mp, OF h3])
  have "quotes ?s2 = filter (\<lambda>x. id' x \<noteq> ''a1'') (quotes sampleState)"
    by (rule A [THEN conjunct2, THEN conjunct1])
  then have q2: "quotes ?s2 = [sampleQuote ''b2'' ''Q-2'' ''2024-01-06'' ''Asha'']"
    by (simp only: e1)
  have "errorMsg ?s2 = errorMsg sampleState"
    by (rule A [THEN conjunct2, THEN conjunct2, THEN conjunct2, THEN conjunct2, THEN conjunct2])
  then have m: "errorMsg ?s2 = None" by (simp only: e3)
  from h1 h2 h3 d r q2 t m show ?thesis by blast
qed

section \<open>Normalizing a remote record\<close>

lemma normalizeQuote_Inl: "isNullish data \<Longrightarrow> normalizeQuote p data = Inl TypeError"
  by (simp add: normalizeQuote_def)

lemma normalizeQuote_Inr:
  assumes "\<not> isNullish data"
  shows "\<exists>q. normalizeQuote p data = Inr q"
  using assms by (simp add: normalizeQuote_def Let_def)

lemma normalizeQuote_fields:
  assumes "normalizeQuote p data = Inr q"
  shows "\<not> isNullish data"
    and "id' q = (if rawIdOf p data = [] \<or> rawIdOf p data = ''undefined'' \<or>
                     rawIdOf p data = ''null''
                  then ''gen_'' @ generateStableId
                         (toLowerCase (customerName q) @ ''|'' @ date q @ ''|'' @
                          toLowerCase (quoteNumber q))
                  else rawIdOf p data)"
    and "date q = (if rawDateOf p data = [] then today p else rawDateOf p data)"
    and "customerName q = trim (ToString p
           (js_or (js_or (field data ''customerName'') (field data ''customer_name'')) (JStr [])))"
    and "quoteNumber q = trim (ToString p
           (js_or (js_or (field data ''quoteNumber'') (field data ''quote_number'')) (JStr [])))"
    and "lineItems q = parseLineItems p (rawLineItemsOf data)"
    and "status q = js_or (field data ''status'') (JStr ''Draft'')"
proof -
  show n: "\<not> isNullish data"
    using assms by (auto simp: normalizeQuote_def)
  have e: "q = projr (normalizeQuote p data)"
    using assms by simp
  show "id' q = (if rawIdOf p data = [] \<or> rawIdOf p data = ''undefined'' \<or>
                     rawIdOf p data = ''null''
                  then ''gen_'' @ generateStableId
                         (toLowerCase (customerName q) @ ''|'' @ date q @ ''|'' @
                          toLowerCase (quoteNumber q))
                  else rawIdOf p data)"
    unfolding e using n by (simp add: normalizeQuote_def Let_def rawIdOf_def)
  show "date q = (if rawDateOf p data = [] then today p else rawDateOf p data)"
    unfolding e using n by (simp add: normalizeQuote_def Let_def rawDateOf_def)
  show "customerName q = trim (ToString p
           (js_or (js_or (field data ''customerName'') (field data ''customer_name'')) (JStr [])))"
    unfolding e using n by (simp add: normalizeQuote_def Let_def)
  show "quoteNumber q = trim (ToString p
           (js_or (js_or (field data ''quoteNumber'') (field data ''quote_number'')) (JStr [])))"
    unfolding e using n by (simp add: normalizeQuote_def Let_def)
  show "lineItems q = parseLineItems p (rawLineItemsOf data)"
    unfolding e using n by (simp add: normalizeQuote_def Let_def rawLineItemsOf_def)
  show "status q = js_or (field data ''status'') (JStr ''Draft'')"
    unfolding e using n by (simp add: normalizeQuote_def Let_def)
qed

lemma generateStableId_nonempty: "generateStableId s \<noteq> []"
proof -
  have "toString36 n \<noteq> []" for n
    by (subst toString36.simps) simp
  then show ?thesis by (simp add: generateStableId_def)
qed


lemma ToString_today [simp]: "ToString (p\<lparr>today := d\<rparr>) v = ToString p v"
proof (induction p v rule: ToString.induct)
  case (9 p xs)
  have "map (\<lambda>x. if x = JNull \<or> x = JUndefined then []
                   else ToString (p\<lparr>today := d\<rparr>) x) xs =
        map (\<lambda>x. if x = JNull \<or> x = JUndefined then [] else ToString p x) xs"
    by (rule map_cong) (auto simp: 9)
  then show ?case by (simp only: ToString.simps)
qed simp_all

lemma rawIdOf_today [simp]: "rawIdOf (p\<lparr>today := d\<rparr>) data = rawIdOf p data"
  by (simp add: rawIdOf_def)

lemma rawDateOf_today [simp]: "rawDateOf (p\<lparr>today := d\<rparr>) data = rawDateOf p data"
  by (simp add: rawDateOf_def)


text \<open>
  Claim C10. On every record object \<open>normalizeQuote\<close> returns a quotation. Its line
  items are decided by the value read from the record (\<open>lineItems\<close>, else
  \<open>line_items\<close>): an array is kept as it is, a string that \<open>JSON.parse\<close> rejects
  gives the empty list, a string that it accepts gives the parsed value, and every other
  value, a missing one included, gives the empty list.
\<close>

theorem normalizeQuote_lineItems_total:
  "\<exists>q. normalizeQuote p (JObj kvs) = Inr q \<and>
       (\<forall>xs. rawLineItemsOf (JObj kvs) = JArr xs \<longrightarrow> lineItems q = JArr xs) \<and>
       (\<forall>s. rawLineItemsOf (JObj kvs) = JStr s \<and> JSON_parse p s = None \<longrightarrow>
            lineItems q = JArr []) \<and>
       (\<forall>s r. rawLineItemsOf (JObj kvs) = JStr s \<and> JSON_parse p s = Some r \<longrightarrow>
            lineItems q = r) \<and>
       (\<not> isArray (rawLineItemsOf (JObj kvs)) \<and> (\<forall>s. rawLineItemsOf (JObj kvs) \<noteq> JStr s) \<longrightarrow>
            lineItems q = JArr []) \<and>
       (map_of kvs ''lineItems'' = None \<and> map_of kvs ''line_items'' = None \<longrightarrow>
            lineItems q = JArr [])"
proof -
  have "\<not> isNullish (JObj kvs)" by (simp add: isNullish_def)
  then obtain q where q: "normalizeQuote p (JObj kvs) = Inr q"
    using normalizeQuote_Inr by blast
  have l: "lineItems q = parseLineItems p (rawLineItemsOf (JObj kvs))"
    by (rule normalizeQuote_fields(6) [OF q])
  have "map_of kvs ''lineItems'' = None \<and> map_of kvs ''line_items'' = None \<longrightarrow>
        rawLineItemsOf (JObj kvs) = JUndefined"
    by (simp add: rawLineItemsOf_def js_or_def)
  then have "(\<forall>xs. rawLineItemsOf (JObj kvs) = JArr xs \<longrightarrow> lineItems q = JArr xs) \<and>
       (\<forall>s. rawLineItemsOf (JObj kvs) = JStr s \<and> JSON_parse p s = None \<longrightarrow>
            lineItems q = JArr []) \<and>
       (\<forall>s r. rawLineItemsOf (JObj kvs) = JStr s \<and> JSON_parse p s = Some r \<longrightarrow>
            lineItems q = r) \<and>
       (\<not> isArray (rawLineItemsOf (JObj kvs)) \<and> (\<forall>s. rawLineItemsOf (JObj kvs) \<noteq> JStr s) \<longrightarrow>
            lineItems q = JArr []) \<and>
       (map_of kvs ''lineItems'' = None \<and> map_of kvs ''line_items'' = None \<longrightarrow>
            lineItems q = JArr [])"
    unfolding l
    by (auto simp: parseLineItems_def isArray_def split: jsval.splits)
  with q show ?thesis by blast
qed







theorem normalizeQuote_lineItems_total_witness:
  "rawLineItemsOf (JObj [(''lineItems'', JStr ''oops'')]) = JStr ''oops'' \<and>
   JSON_parse samplePlatform ''oops'' = None \<and>
   map_sum id lineItems (normalizeQuote samplePlatform (JObj [(''lineItems'', JStr ''oops'')])) =
     Inr (JArr [])"
proof -
  have h: "rawLineItemsOf (JObj [(''lineItems'', JStr ''oops'')]) = JStr ''oops'' \<and>
           JSON_parse samplePlatform ''oops'' = None"
    by code_simp
  from normalizeQuote_lineItems_total [of samplePlatform "[(''lineItems'', JStr ''oops'')]"]
  obtain q where q: "normalizeQuote samplePlatform (JObj [(''lineItems'', JStr ''oops'')]) = Inr q"
    and l: "\<forall>s. rawLineItemsOf (JObj [(''lineItems'', JStr ''oops'')]) = JStr s \<and>
              JSON_parse samplePlatform s = None \<longrightarrow> lineItems q = JArr []"
    by blast
  from l h have "lineItems q = JArr []" by blast
  with q h show ?thesis by simp
qed

section \<open>Fetching from the remote store\<close>

lemma mapE_all_Inr:
  "(\<forall>x\<in>set xs. \<exists>y. f x = Inr y) \<Longrightarrow> mapE f xs = Inr (map (\<lambda>x. projr (f x)) xs)"
  by (induction xs) auto


lemma rawDataOf_shapes:
  "field (JObj kvs) ''data'' = JArr xs \<Longrightarrow> rawDataOf (JObj kvs) = xs"
  "rawDataOf (JArr xs) = xs"
  "\<not> isArray v \<Longrightarrow> \<not> isArray (field v ''data'') \<Longrightarrow> rawDataOf v = []"
  by (simp_all add: rawDataOf_def isArray_def elems_def)

text \<open>
  Claim C4, as amended. \<open>fetchQuotes\<close> throws when the transport fails, when the
  HTTP status is not successful, when the trimmed body starts with \<open><\<close>, and when
  the body is not valid JSON. When none of these holds and the parsed value and the
  records selected from it are not \<open>null\<close>, it returns the selected records, each
  converted by \<open>normalizeQuote\<close>, without those whose status is \<open>Deleted\<close>. The
  records selected are the \<open>data\<close> array of an object (with status \<open>success\<close> or
  with any other), or the elements of a bare array; every other shape selects none.
\<close>

theorem fetchQuotes_outcomes:
  "fetchQuotes p NetworkFailure = Inl NetworkError \<and>
   (\<not> ok \<longrightarrow> fetchQuotes p (Response ok code body) = Inl (HttpError code)) \<and>
   (ok \<and> startsWith (trim body) ''<'' \<longrightarrow>
      fetchQuotes p (Response ok code body) = Inl HtmlError) \<and>
   (ok \<and> \<not> startsWith (trim body) ''<'' \<and> JSON_parse p body = None \<longrightarrow>
      fetchQuotes p (Response ok code body) = Inl InvalidFormat) \<and>
   (ok \<and> \<not> startsWith (trim body) ''<'' \<and> JSON_parse p body = Some result \<and>
    \<not> isNullish result \<and> (\<forall>d\<in>set (rawDataOf result). \<not> isNullish d) \<longrightarrow>
      fetchQuotes p (Response ok code body) =
        Inr (filter (\<lambda>q. status q \<noteq> JStr ''Deleted'')
               (map (\<lambda>d. projr (normalizeQuote p d)) (rawDataOf result)))) \<and>
   (field (JObj kvs) ''data'' = JArr xs \<longrightarrow> rawDataOf (JObj kvs) = xs) \<and>
   rawDataOf (JArr xs) = xs \<and>
   (\<not> isArray v \<and> \<not> isArray (field v ''data'') \<longrightarrow> rawDataOf v = [])"
proof -
  have a: "fetchQuotes p NetworkFailure = Inl NetworkError"
    by (simp add: fetchQuotes_def)
  have b: "\<not> ok \<longrightarrow> fetchQuotes p (Response ok code body) = Inl (HttpError code)"
    by (simp add: fetchQuotes_def)
  have c: "ok \<and> startsWith (trim body) ''<'' \<longrightarrow>
      fetchQuotes p (Response ok code body) = Inl HtmlError"
    by (simp add: fetchQuotes_def)
  have d: "ok \<and> \<not> startsWith (trim body) ''<'' \<and> JSON_parse p body = None \<longrightarrow>
      fetchQuotes p (Response ok code body) = Inl InvalidFormat"
    by (simp add: fetchQuotes_def)
  have e: "ok \<and> \<not> startsWith (trim body) ''<'' \<and> JSON_parse p body = Some result \<and>
    \<not> isNullish result \<and> (\<forall>d\<in>set (rawDataOf result). \<not> isNullish d) \<longrightarrow>
      fetchQuotes p (Response ok code body) =
        Inr (filter (\<lambda>q. status q \<noteq> JStr ''Deleted'')
               (map (\<lambda>d. projr (normalizeQuote p d)) (rawDataOf result)))"
  proof
    assume h: "ok \<and> \<not> startsWith (trim body) ''<'' \<and> JSON_parse p body = Some result \<and>
      \<not> isNullish result \<and> (\<forall>d\<in>set (rawDataOf result). \<not> isNullish d)"
    then have "\<forall>d\<in>set (rawDataOf result). \<exists>q. normalizeQuote p d = Inr q"
      using normalizeQuote_Inr by blast
    then have "mapE (normalizeQuote p) (rawDataOf result) =
               Inr (map (\<lambda>d. projr (normalizeQuote p d)) (rawDataOf result))"
      by (rule mapE_all_Inr)
    with h show "fetchQuotes p (Response ok code body) =
        Inr (filter (\<lambda>q. status q \<noteq> JStr ''Deleted'')
               (map (\<lambda>d. projr (normalizeQuote p d)) (rawDataOf result)))"
      by (simp add: fetchQuotes_def)
  qed
  have f: "field (JObj kvs) ''data'' = JArr xs \<longrightarrow> rawDataOf (JObj kvs) = xs"
    using rawDataOf_shapes(1) by blast
  have g: "rawDataOf (JArr xs) = xs" by (rule rawDataOf_shapes(2))
  have i: "\<not> isArray v \<and> \<not> isArray (field v ''data'') \<longrightarrow> rawDataOf v = []"
    using rawDataOf_shapes(3) by blast
  show ?thesis
    by (rule conjI [OF a conjI [OF b conjI [OF c conjI [OF d conjI [OF e
          conjI [OF f conjI [OF g i]]]]]]])
qed

theorem fetchQuotes_outcomes_witness:
  "\<not> startsWith (trim ''[]'') ''<'' \<and> JSON_parse samplePlatform ''[]'' = Some (JArr []) \<and>
   \<not> isNullish (JArr []) \<and> rawDataOf (JArr []) = [] \<and>
   fetchQuotes samplePlatform (Response True 200 ''[]'') = Inr [] \<and>
   fetchQuotes samplePlatform (Response False 404 ''[]'') = Inl (HttpError 404) \<and>
   startsWith (trim '' <html>'') ''<'' \<and>
   fetchQuotes samplePlatform (Response True 200 '' <html>'') = Inl HtmlError \<and>
   \<not> startsWith (trim ''oops'') ''<'' \<and> JSON_parse samplePlatform ''oops'' = None \<and>
   fetchQuotes samplePlatform (Response True 200 ''oops'') = Inl InvalidFormat"
proof -
  have h1: "True \<and> \<not> startsWith (trim ''[]'') ''<'' \<and>
            JSON_parse samplePlatform ''[]'' = Some (JArr []) \<and>
            \<not> isNullish (JArr []) \<and> (\<forall>d\<in>set (rawDataOf (JArr [])). \<not> isNullish d)"
    by code_simp
  have r: "rawDataOf (JArr []) = []" by code_simp
  note T1 = fetchQuotes_outcomes [of samplePlatform True 200 "''[]''" "JArr []"]
  have "fetchQuotes samplePlatform (Response True 200 ''[]'') =
        Inr (filter (\<lambda>q. status q \<noteq> JStr ''Deleted'')
               (map (\<lambda>d. projr (normalizeQuote samplePlatform d)) (rawDataOf (JArr []))))"
    by (rule T1 [THEN conjunct2, THEN conjunct2, THEN conjunct2, THEN conjunct2,
                 THEN conjunct1, THEN mp, OF h1])
  then have a: "fetchQuotes samplePlatform (Response True 200 ''[]'') = Inr []"
    by (simp add: r)
  have h2: "\<not> False" by simp
  have b: "fetchQuotes samplePlatform (Response False 404 ''[]'') = Inl (HttpError 404)"
    by (rule fetchQuotes_outcomes [of samplePlatform False 404 "''[]''",
          THEN conjunct2, THEN conjunct1, THEN mp, OF h2])
  have h3: "True \<and> startsWith (trim '' <html>'') ''<''" by code_simp
  have c: "fetchQuotes samplePlatform (Response True 200 '' <html>'') = Inl HtmlError"
    by (rule fetchQuotes_outcomes [of samplePlatform True 200 "'' <html>''",
          THEN conjunct2, THEN conjunct2, THEN conjunct1, THEN mp, OF h3])
  have h4: "True \<and> \<not> startsWith (trim ''oops'') ''<'' \<and> JSON_parse samplePlatform ''oops'' = None"
    by code_simp
  have d: "fetchQuotes samplePlatform (Response True 200 ''oops'') = Inl InvalidFormat"
    by (rule fetchQuotes_outcomes [of samplePlatform True 200 "''oops''",
          THEN conjunct2, THEN conjunct2, THEN conjunct2, THEN conjunct1, THEN mp, OF h4])
  from h1 r h3 h4 a b c d show ?thesis by blast
qed

text \<open>
  A transport failure makes \<open>fetchQuotes\<close> throw although there is neither a status nor
  a body; and the body \<open>null\<close>, with a successful status, is valid JSON that does not
  start with \<open><\<close>, and \<open>fetchQuotes\<close> throws on it as well.
\<close>

theorem fetchQuotes_throws_counterexample:
  "fetchQuotes samplePlatform NetworkFailure = Inl NetworkError \<and>
   \<not> startsWith (trim ''null'') ''<'' \<and>
   JSON_parse samplePlatform ''null'' = Some JNull \<and>
   fetchQuotes samplePlatform (Response True 200 ''null'') = Inl TypeError"
  by code_simp

section \<open>The total on a quote card\<close>

lemma reduceItems_foldl:
  "(\<forall>it\<in>set items. \<not> isNullish it) \<Longrightarrow>
   reduceItems p items acc =
     Inr (foldl (\<lambda>acc it. num_add p acc
            (num_mul p (ToNumber p (field it ''quantity''))
                       (ToNumber p (field it ''unitAmount'')))) acc items)"
  by (induction items arbitrary: acc) auto

lemma reduceItems_null:
  "(\<exists>it\<in>set items. isNullish it) \<Longrightarrow> reduceItems p items acc = Inl TypeError"
  by (induction items arbitrary: acc) auto

lemma QuoteCard_option: "isOptionQuote q \<Longrightarrow> QuoteCard p q \<noteq> Inr (GrandTotal n)"
  by (auto simp: QuoteCard_def Let_def split: jsval.splits sum.splits)

lemma QuoteCard_not_array: "(\<forall>items. lineItems q \<noteq> JArr items) \<Longrightarrow> QuoteCard p q = Inl TypeError"
  by (auto simp: QuoteCard_def split: jsval.splits)

text \<open>
  Claim C9, as amended. The card works out the total before it looks at the option flag:
  the products of quantity and unit amount, each converted to a number, are added up in
  the order of the list, starting from 0, the discount is subtracted and the result is
  rounded to the nearest integer, a tie upwards; the sum, the product and the difference
  are those of JavaScript numbers. On a quotation whose line items are an array with no
  \<open>null\<close> or \<open>undefined\<close> entry, the card shows that total when the quotation is
  not an option quote, and the words for multiple options, and no total, when it is. On a
  quotation whose line items are not an array, or hold a \<open>null\<close> or \<open>undefined\<close>
  entry, the card throws, whatever the flag. An option quote never shows a grand total.
\<close>

theorem grand_total_display:
  "(lineItems q = JArr items \<and> (\<forall>it\<in>set items. \<not> isNullish it) \<longrightarrow>
      QuoteCard p q =
        Inr (if isOptionQuote q then MultipleOptions
             else GrandTotal (Math_round (num_sub p
               (foldl (\<lambda>acc it. num_add p acc
                  (num_mul p (ToNumber p (field it ''quantity''))
                             (ToNumber p (field it ''unitAmount'')))) (Fin 0) items)
               (discount q))))) \<and>
   (isOptionQuote q \<longrightarrow> (\<forall>n. QuoteCard p q \<noteq> Inr (GrandTotal n))) \<and>
   ((\<forall>xs. lineItems q \<noteq> JArr xs) \<or>
    (lineItems q = JArr items \<and> (\<exists>it\<in>set items. isNullish it)) \<longrightarrow>
      QuoteCard p q = Inl TypeError)"
proof (rule conjI)
  show "lineItems q = JArr items \<and> (\<forall>it\<in>set items. \<not> isNullish it) \<longrightarrow>
      QuoteCard p q =
        Inr (if isOptionQuote q then MultipleOptions
             else GrandTotal (Math_round (num_sub p
               (foldl (\<lambda>acc it. num_add p acc
                  (num_mul p (ToNumber p (field it ''quantity''))
                             (ToNumber p (field it ''unitAmount'')))) (Fin 0) items)
               (discount q))))"
  proof
    assume h: "lineItems q = JArr items \<and> (\<forall>it\<in>set items. \<not> isNullish it)"
    then have l: "lineItems q = JArr items" and n: "\<forall>it\<in>set items. \<not> isNullish it"
      by simp_all
    show "QuoteCard p q =
        Inr (if isOptionQuote q then MultipleOptions
             else GrandTotal (Math_round (num_sub p
               (foldl (\<lambda>acc it. num_add p acc
                  (num_mul p (ToNumber p (field it ''quantity''))
                             (ToNumber p (field it ''unitAmount'')))) (Fin 0) items)
               (discount q))))"
      by (simp add: QuoteCard_def l reduceItems_foldl [OF n] Let_def)
  qed
next
  show "(isOptionQuote q \<longrightarrow> (\<forall>n. QuoteCard p q \<noteq> Inr (GrandTotal n))) \<and>
   ((\<forall>xs. lineItems q \<noteq> JArr xs) \<or>
    (lineItems q = JArr items \<and> (\<exists>it\<in>set items. isNullish it)) \<longrightarrow>
      QuoteCard p q = Inl TypeError)"
  proof (rule conjI)
    show "isOptionQuote q \<longrightarrow> (\<forall>n. QuoteCard p q \<noteq> Inr (GrandTotal n))"
      by (simp add: QuoteCard_option)
  next
    show "(\<forall>xs. lineItems q \<noteq> JArr xs) \<or>
      (lineItems q = JArr items \<and> (\<exists>it\<in>set items. isNullish it)) \<longrightarrow>
        QuoteCard p q = Inl TypeError"
    proof
      assume "(\<forall>xs. lineItems q \<noteq> JArr xs) \<or>
        (lineItems q = JArr items \<and> (\<exists>it\<in>set items. isNullish it))"
      then show "QuoteCard p q = Inl TypeError"
      proof
        assume "\<forall>xs. lineItems q \<noteq> JArr xs"
        then show ?thesis by (rule QuoteCard_not_array)
      next
        assume a: "lineItems q = JArr items \<and> (\<exists>it\<in>set items. isNullish it)"
        then have "reduceItems p items (Fin 0) = Inl TypeError"
          by (simp add: reduceItems_null)
        with a show ?thesis by (simp add: QuoteCard_def)
      qed
    qed
  qed
qed

theorem grand_total_display_witness:
  "lineItems (sampleCard False) = JArr sampleItems \<and>
   \<not> isOptionQuote (sampleCard False) \<and>
   QuoteCard samplePlatform (sampleCard False) = Inr (GrandTotal (Fin 1903)) \<and>
   isOptionQuote (sampleCard True) \<and>
   QuoteCard samplePlatform (sampleCard True) = Inr MultipleOptions"
proof -
  have n: "\<forall>it\<in>set sampleItems. \<not> isNullish it"
    by (simp add: sampleItems_def isNullish_def)
  have f: "lineItems (sampleCard False) = JArr sampleItems" "\<not> isOptionQuote (sampleCard False)"
    by (simp_all add: sampleCard_def)
  have o: "isOptionQuote (sampleCard True)" "lineItems (sampleCard True) = JArr sampleItems"
    by (simp_all add: sampleCard_def)
  have d: "discount (sampleCard False) = Fin 100" by (simp add: sampleCard_def)
  have s: "foldl (\<lambda>acc it. num_add samplePlatform acc
                  (num_mul samplePlatform (ToNumber samplePlatform (field it ''quantity''))
                     (ToNumber samplePlatform (field it ''unitAmount'')))) (Fin 0) sampleItems =
           Fin (4005 / 2)"
    by (simp add: sampleItems_def samplePlatform_def sampleArith_def smallHalf_def)
  have m: "Math_round (num_sub samplePlatform (Fin (4005 / 2)) (Fin 100)) = Fin 1903"
    by (simp add: samplePlatform_def sampleArith_def smallHalf_def)
  note T = grand_total_display [of _ sampleItems samplePlatform]
  have "QuoteCard samplePlatform (sampleCard False) =
        Inr (if isOptionQuote (sampleCard False) then MultipleOptions
             else GrandTotal (Math_round (num_sub samplePlatform
               (foldl (\<lambda>acc it. num_add samplePlatform acc
                  (num_mul samplePlatform (ToNumber samplePlatform (field it ''quantity''))
                     (ToNumber samplePlatform (field it ''unitAmount'')))) (Fin 0) sampleItems)
               (discount (sampleCard False)))))"
    using T [of "sampleCard False", THEN conjunct1] f(1) n by blast
  then have a: "QuoteCard samplePlatform (sampleCard False) = Inr (GrandTotal (Fin 1903))"
    by (simp only: s d m f(2) if_False)
  have "QuoteCard samplePlatform (sampleCard True) =
        Inr (if isOptionQuote (sampleCard True) then MultipleOptions
             else GrandTotal (Math_round (num_sub samplePlatform
               (foldl (\<lambda>acc it. num_add samplePlatform acc
                  (num_mul samplePlatform (ToNumber samplePlatform (field it ''quantity''))
                     (ToNumber samplePlatform (field it ''unitAmount'')))) (Fin 0) sampleItems)
               (discount (sampleCard True)))))"
    using T [of "sampleCard True", THEN conjunct1] o(2) n by blast
  then have b: "QuoteCard samplePlatform (sampleCard True) = Inr MultipleOptions"
    by (simp only: o(1) if_True)
  from f o(1) a b show ?thesis by blast
qed

text \<open>
  A quotation whose only line item is \<open>null\<close>: the card of an option quote throws
  while it works out the total that it would not show, and the card of a quotation that is
  not an option quote shows no total at all.
\<close>

theorem grand_total_counterexample:
  "isOptionQuote (nullItemCard True) \<and>
   QuoteCard samplePlatform (nullItemCard True) = Inl TypeError \<and>
   \<not> isOptionQuote (nullItemCard False) \<and>
   QuoteCard samplePlatform (nullItemCard False) = Inl TypeError"
  by (simp add: nullItemCard_def QuoteCard_def isNullish_def)

section \<open>A delete against concurrent refreshes\<close>




















section \<open>Saving a tombstoned quotation again\<close>

lemma getLocallyBlacklistedItems_cache [simp]:
  "getLocallyBlacklistedItems p (st\<lparr>tyreQuotes := c\<rparr>) = getLocallyBlacklistedItems p st"
  by (simp add: getLocallyBlacklistedItems_def readBlacklist_def)

lemma read_written:
  assumes "getLocallyBlacklistedItems p
             (st\<lparr>bl_ids := Parsed (JArr a), bl_numbers := Parsed (JArr b),
                 bl_fingerprints := Parsed (JArr c)\<rparr>) = (ids, numbers, fingerprints)"
  shows "set numbers \<subseteq> set b" and "set fingerprints \<subseteq> set c"
  using assms
  by (auto simp: getLocallyBlacklistedItems_def readBlacklist_def bindE_def parseItem_def
      newSet_def set_foldl_setAdd split: stored.splits jsval.splits sum.splits)

lemma handleSaveQuote_store:
  assumes g: "getLocallyBlacklistedItems p (store st) = (ids0, numbers0, fingerprints0)"
  shows "\<exists>c. store (handleSaveQuote p r quote st) =
           (if JStr (normalize p (JStr (id' quote))) \<in> set ids0 \<or>
               JStr (normalize p (JStr (quoteNumber quote))) \<in> set numbers0 \<or>
               JStr (getQuoteFingerprint p quote) \<in> set fingerprints0
            then (store st)\<lparr>
                   bl_ids := Parsed (JArr (filter (\<lambda>i. i \<noteq> JStr (normalize p (JStr (id' quote))))
                     ids0)),
                   bl_numbers := Parsed (JArr (filter
                     (\<lambda>n. n \<noteq> JStr (normalize p (JStr (quoteNumber quote)))) numbers0)),
                   bl_fingerprints := Parsed (JArr (filter
                     (\<lambda>f. f \<noteq> JStr (getQuoteFingerprint p quote)) fingerprints0))\<rparr>
            else store st)\<lparr>tyreQuotes := c\<rparr>"
  using g by (auto simp: handleSaveQuote_def Let_def app_defs split: option.splits)

text \<open>
  After \<open>handleSaveQuote\<close> the ledger, as the next sync reads it, holds neither the
  normalized quote number nor the fingerprint of the saved quotation.
\<close>

lemma ledger_handleSaveQuote:
  assumes "getLocallyBlacklistedItems p (store (handleSaveQuote p r quote st)) =
           (ids, numbers, fingerprints)"
  shows "JStr (normalize p (JStr (quoteNumber quote))) \<notin> set numbers"
    and "JStr (getQuoteFingerprint p quote) \<notin> set fingerprints"
proof -
  obtain ids0 numbers0 fingerprints0
    where g: "getLocallyBlacklistedItems p (store st) = (ids0, numbers0, fingerprints0)"
    by (cases "getLocallyBlacklistedItems p (store st)") auto
  from handleSaveQuote_store [OF g, of r quote] obtain c
    where s: "store (handleSaveQuote p r quote st) =
           (if JStr (normalize p (JStr (id' quote))) \<in> set ids0 \<or>
               JStr (normalize p (JStr (quoteNumber quote))) \<in> set numbers0 \<or>
               JStr (getQuoteFingerprint p quote) \<in> set fingerprints0
            then (store st)\<lparr>
                   bl_ids := Parsed (JArr (filter (\<lambda>i. i \<noteq> JStr (normalize p (JStr (id' quote))))
                     ids0)),
                   bl_numbers := Parsed (JArr (filter
                     (\<lambda>n. n \<noteq> JStr (normalize p (JStr (quoteNumber quote)))) numbers0)),
                   bl_fingerprints := Parsed (JArr (filter
                     (\<lambda>f. f \<noteq> JStr (getQuoteFingerprint p quote)) fingerprints0))\<rparr>
            else store st)\<lparr>tyreQuotes := c\<rparr>"
    by blast
  let ?hit = "JStr (normalize p (JStr (id' quote))) \<in> set ids0 \<or>
               JStr (normalize p (JStr (quoteNumber quote))) \<in> set numbers0 \<or>
               JStr (getQuoteFingerprint p quote) \<in> set fingerprints0"
  have w: "?hit \<Longrightarrow> getLocallyBlacklistedItems p ((store st)\<lparr>
                   bl_ids := Parsed (JArr (filter (\<lambda>i. i \<noteq> JStr (normalize p (JStr (id' quote))))
                     ids0)),
                   bl_numbers := Parsed (JArr (filter
                     (\<lambda>n. n \<noteq> JStr (normalize p (JStr (quoteNumber quote)))) numbers0)),
                   bl_fingerprints := Parsed (JArr (filter
                     (\<lambda>f. f \<noteq> JStr (getQuoteFingerprint p quote)) fingerprints0))\<rparr>) =
                 (ids, numbers, fingerprints)"
    using assms unfolding s by (simp only: if_True getLocallyBlacklistedItems_cache)
  have u: "\<not> ?hit \<Longrightarrow> (ids, numbers, fingerprints) = (ids0, numbers0, fingerprints0)"
    using assms g unfolding s by (simp only: if_False getLocallyBlacklistedItems_cache)
  show "JStr (normalize p (JStr (quoteNumber quote))) \<notin> set numbers"
  proof (cases ?hit)
    case True
    from read_written(1) [OF w [OF True]] show ?thesis by auto
  next
    case False
    with u [OF False] show ?thesis by simp
  qed
  show "JStr (getQuoteFingerprint p quote) \<notin> set fingerprints"
  proof (cases ?hit)
    case True
    from read_written(2) [OF w [OF True]] show ?thesis by auto
  next
    case False
    with u [OF False] show ?thesis by simp
  qed
qed

text \<open>
  Claim C7 at a store that still holds the legacy ledger. The legacy key lists
  \<open>Legacy-7\<close>, so its normalized form is tombstoned. Saving a quotation with that
  identifier writes an identifier ledger without it, but the legacy key is left as it was
  and the next read of the ledger folds it in again: the identifier is still tombstoned.
  The quotation is in the list right after the save, and the background sync that the
  save schedules, receiving that very quotation from the backend, removes it from the
  list.
\<close>

theorem handleSaveQuote_legacy_id_stays_tombstoned:
  "blacklistedIds (store sampleState) = Parsed (JArr [JStr ''Legacy-7'']) \<and>
   JStr (normalize samplePlatform (JStr ''Legacy-7'')) \<in>
     set (fst (getLocallyBlacklistedItems samplePlatform (store sampleState))) \<and>
   bl_ids (store (handleSaveQuote samplePlatform sampleState
       (sampleQuote ''Legacy-7'' ''Q-7'' ''2024-01-07'' ''Meera'') sampleState)) =
     Parsed (JArr [JStr ''old-1'']) \<and>
   JStr (normalize samplePlatform (JStr ''Legacy-7'')) \<in>
     set (fst (getLocallyBlacklistedItems samplePlatform
       (store (handleSaveQuote samplePlatform sampleState
          (sampleQuote ''Legacy-7'' ''Q-7'' ''2024-01-07'' ''Meera'') sampleState)))) \<and>
   sampleQuote ''Legacy-7'' ''Q-7'' ''2024-01-07'' ''Meera'' \<in>
     set (quotes (handleSaveQuote samplePlatform sampleState
       (sampleQuote ''Legacy-7'' ''Q-7'' ''2024-01-07'' ''Meera'') sampleState)) \<and>
   sampleQuote ''Legacy-7'' ''Q-7'' ''2024-01-07'' ''Meera'' \<notin>
     set (quotes (fetchRemoteQuotes_settled samplePlatform True
       (Inr [sampleQuote ''Legacy-7'' ''Q-7'' ''2024-01-07'' ''Meera''])
       (handleSaveQuote_timer (handleSaveQuote_settled (Inr ())
          (handleSaveQuote samplePlatform sampleState
             (sampleQuote ''Legacy-7'' ''Q-7'' ''2024-01-07'' ''Meera'') sampleState)))))"
  by code_simp

end
